theory Spec2Isabelle
  imports Complex_Main "HOL-Library.Sublist"
begin

section \<open>Python values and strings\<close>

text \<open>
  A Python \<open>str\<close> is modelled as a \<open>string\<close>: one \<open>char\<close> per code point, for the
  code points below 256 (Latin-1). The character predicates below are Python's
  \<open>str.isspace\<close>, \<open>str.isalpha\<close>, \<open>str.isdigit\<close> and the \<open>re\<close> classes
  \<open>\s\<close>, \<open>\d\<close>, \<open>\w\<close> on that range. A Python \<open>float\<close> is modelled by the real
  number it denotes (rounding, infinities and NaN are outside the model).
\<close>

datatype pyval =
    PNone
  | PBool bool
  | PInt int
  | PFloat real
  | PStr string
  | PList "pyval list"
  | PDict "(string \<times> pyval) list"

datatype exn = JSONDecodeError | TypeError | ValueError | TimeoutError | OtherError string

type_synonym 'a outcome = "exn + 'a"

text \<open>Python truthiness, as used by \<open>if x\<close>, \<open>not x\<close> and \<open>filter(None, xs)\<close>.\<close>

fun truthy :: "pyval \<Rightarrow> bool" where
  "truthy PNone = False"
| "truthy (PBool b) = b"
| "truthy (PInt n) = (n \<noteq> 0)"
| "truthy (PFloat x) = (x \<noteq> 0)"
| "truthy (PStr s) = (s \<noteq> [])"
| "truthy (PList xs) = (xs \<noteq> [])"
| "truthy (PDict kvs) = (kvs \<noteq> [])"

text \<open>\<open>isinstance(x, (int, float))\<close>: \<open>bool\<close> is a subclass of \<open>int\<close>.\<close>

fun is_number :: "pyval \<Rightarrow> bool" where
  "is_number (PBool b) = True"
| "is_number (PInt n) = True"
| "is_number (PFloat x) = True"
| "is_number v = False"

fun is_list :: "pyval \<Rightarrow> bool" where
  "is_list (PList xs) = True"
| "is_list v = False"

fun is_str :: "pyval \<Rightarrow> bool" where
  "is_str (PStr s) = True"
| "is_str v = False"

fun items :: "pyval \<Rightarrow> pyval list" where
  "items (PList xs) = xs"
| "items v = []"

definition code :: "char \<Rightarrow> nat" where
  "code c = of_char c"

definition is_space :: "char \<Rightarrow> bool" where
  "is_space c = (let n = code c in (9 \<le> n \<and> n \<le> 13) \<or> (28 \<le> n \<and> n \<le> 32) \<or> n = 133 \<or> n = 160)"

definition is_decimal :: "char \<Rightarrow> bool" where
  "is_decimal c = (let n = code c in 48 \<le> n \<and> n \<le> 57)"

definition is_digit :: "char \<Rightarrow> bool" where
  "is_digit c = (let n = code c in (48 \<le> n \<and> n \<le> 57) \<or> n = 178 \<or> n = 179 \<or> n = 185)"

definition is_upper :: "char \<Rightarrow> bool" where
  "is_upper c = (let n = code c in (65 \<le> n \<and> n \<le> 90) \<or> (192 \<le> n \<and> n \<le> 214) \<or> (216 \<le> n \<and> n \<le> 222))"

definition is_alpha :: "char \<Rightarrow> bool" where
  "is_alpha c = (let n = code c in (65 \<le> n \<and> n \<le> 90) \<or> (97 \<le> n \<and> n \<le> 122) \<or> n = 170 \<or> n = 181
      \<or> n = 186 \<or> (192 \<le> n \<and> n \<le> 214) \<or> (216 \<le> n \<and> n \<le> 246) \<or> 248 \<le> n)"

definition is_word :: "char \<Rightarrow> bool" where
  "is_word c = (let n = code c in is_alpha c \<or> is_digit c \<or> (188 \<le> n \<and> n \<le> 190) \<or> n = 95)"

definition lower_char :: "char \<Rightarrow> char" where
  "lower_char c = (if is_upper c then char_of (code c + 32) else c)"

definition lower :: "string \<Rightarrow> string" where
  "lower s = map lower_char s"

text \<open>\<open>sub in s\<close> on strings.\<close>

fun contains :: "string \<Rightarrow> string \<Rightarrow> bool" where
  "contains sub [] = (sub = [])"
| "contains sub (c # cs) = (prefix sub (c # cs) \<or> contains sub cs)"

definition strip :: "string \<Rightarrow> string" where
  "strip s = rev (dropWhile is_space (rev (dropWhile is_space s)))"

section \<open>The website probe (scraper.py, try_load_website)\<close>

text \<open>
  What \<open>page.goto\<close> does is the driver's business; the probe sees one of four things:
  a response with its status code, no response object, a \<open>PlaywrightTimeoutError\<close>, or
  another \<open>Exception\<close> with its text \<open>str(e)\<close>.
\<close>

datatype goto_result =
    Response int
  | NoResponse
  | RaisesTimeout string
  | RaisesOther string

definition forbidden_keywords :: "string list" where
  "forbidden_keywords = [''forbidden'', ''permission'', ''access denied'', ''unauthorized'']"

definition try_load_website :: "goto_result \<Rightarrow> string outcome" where
  "try_load_website g =
     (case g of
        Response status_code \<Rightarrow>
          if status_code \<in> set [403, 401, 451] then Inr ''forbidden''
          else if status_code \<ge> 400 then Inr ''error''
          else Inr ''accessible''
      | NoResponse \<Rightarrow> Inr ''error''
      | RaisesTimeout msg \<Rightarrow> Inr ''timeout''
      | RaisesOther msg \<Rightarrow>
          (let error_str = lower msg
           in if list_ex (\<lambda>keyword. contains keyword error_str) forbidden_keywords
              then Inr ''forbidden'' else Inr ''error''))"

section \<open>Regular expressions (the part of Python's \<open>re\<close> the extractor uses)\<close>

text \<open>
  The extractor's patterns are built from literals, repetitions of one character class
  (greedy or lazy, with bounds), one capturing group and the end anchor. \<open>rmatch\<close>
  lists every way a pattern matches at the start of the text, in the order in which
  Python's backtracking matcher tries them; the first one is the match Python reports.
\<close>

datatype regex =
    Lit string
  | Rep bool nat "nat option" "char \<Rightarrow> bool"
  | Grp regex
  | Seq regex regex
  | Eol

definition newline :: char where
  "newline = CHR 0x0A"

definition counts :: "bool \<Rightarrow> nat \<Rightarrow> nat \<Rightarrow> nat list" where
  "counts greedy lo hi = (if greedy then rev [lo..<Suc hi] else [lo..<Suc hi])"

fun rmatch :: "regex \<Rightarrow> string \<Rightarrow> (string list \<times> string) list" where
  "rmatch (Lit l) s = (if prefix l s then [([], drop (length l) s)] else [])"
| "rmatch (Rep greedy lo hi p) s =
     (let n = length (takeWhile p s);
          m = (case hi of None \<Rightarrow> n | Some h \<Rightarrow> min n h)
      in map (\<lambda>k. ([], drop k s)) (counts greedy lo m))"
| "rmatch (Grp r) s =
     map (\<lambda>(caps, rest). (take (length s - length rest) s # caps, rest)) (rmatch r s)"
| "rmatch (Seq r1 r2) s =
     concat (map (\<lambda>(c1, rest1). map (\<lambda>(c2, rest2). (c1 @ c2, rest2)) (rmatch r2 rest1))
                 (rmatch r1 s))"
| "rmatch Eol s = (if s = [] \<or> s = [newline] then [([], s)] else [])"

text \<open>\<open>re.match\<close>: the length of the match and its groups.\<close>

definition re_match :: "regex \<Rightarrow> string \<Rightarrow> (nat \<times> string list) option" where
  "re_match r s =
     (case rmatch r s of [] \<Rightarrow> None
      | (caps, rest) # _ \<Rightarrow> Some (length s - length rest, caps))"

text \<open>\<open>re.search\<close>: start, end and groups of the leftmost match.\<close>

fun re_search_from :: "regex \<Rightarrow> nat \<Rightarrow> string \<Rightarrow> (nat \<times> nat \<times> string list) option" where
  "re_search_from r i [] =
     (case re_match r [] of Some (n, caps) \<Rightarrow> Some (i, i + n, caps) | None \<Rightarrow> None)"
| "re_search_from r i (c # cs) =
     (case re_match r (c # cs) of Some (n, caps) \<Rightarrow> Some (i, i + n, caps)
      | None \<Rightarrow> re_search_from r (Suc i) cs)"

definition re_search :: "regex \<Rightarrow> string \<Rightarrow> (nat \<times> nat \<times> string list) option" where
  "re_search r s = re_search_from r 0 s"

definition group1 :: "string list \<Rightarrow> string" where
  "group1 caps = (case caps of [] \<Rightarrow> [] | g # _ \<Rightarrow> g)"

text \<open>\<open>re.findall\<close> for a pattern with one group; the counter skips over a match.\<close>

fun findall_from :: "regex \<Rightarrow> nat \<Rightarrow> string \<Rightarrow> string list" where
  "findall_from r k [] = []"
| "findall_from r (Suc k) (c # cs) = findall_from r k cs"
| "findall_from r 0 (c # cs) =
     (case re_match r (c # cs) of
        Some (n, caps) \<Rightarrow> group1 caps # findall_from r (n - 1) cs
      | None \<Rightarrow> findall_from r 0 cs)"

definition findall :: "regex \<Rightarrow> string \<Rightarrow> string list" where
  "findall r s = findall_from r 0 s"

text \<open>\<open>re.sub(r, '', s)\<close>: every match is deleted.\<close>

fun sub_from :: "regex \<Rightarrow> nat \<Rightarrow> string \<Rightarrow> string" where
  "sub_from r k [] = []"
| "sub_from r (Suc k) (c # cs) = sub_from r k cs"
| "sub_from r 0 (c # cs) =
     (case re_match r (c # cs) of
        Some (Suc n, caps) \<Rightarrow> sub_from r n cs
      | _ \<Rightarrow> c # sub_from r 0 cs)"

definition re_sub_empty :: "regex \<Rightarrow> string \<Rightarrow> string" where
  "re_sub_empty r s = sub_from r 0 s"

definition seqs :: "regex list \<Rightarrow> regex" where
  "seqs rs = foldr Seq rs (Lit [])"

definition star :: "(char \<Rightarrow> bool) \<Rightarrow> regex" where
  "star p = Rep True 0 None p"

definition plus1 :: "(char \<Rightarrow> bool) \<Rightarrow> regex" where
  "plus1 p = Rep True 1 None p"

definition lazy_star :: "(char \<Rightarrow> bool) \<Rightarrow> regex" where
  "lazy_star p = Rep False 0 None p"

definition one :: "(char \<Rightarrow> bool) \<Rightarrow> regex" where
  "one p = Rep True 1 (Some 1) p"

text \<open>\<open>.\<close> with and without \<open>re.DOTALL\<close>, and \<open>[^c]\<close>.\<close>

definition any_char :: "char \<Rightarrow> bool" where
  "any_char c = True"

definition dot :: "char \<Rightarrow> bool" where
  "dot c = (c \<noteq> newline)"

definition not_char :: "char \<Rightarrow> char \<Rightarrow> bool" where
  "not_char x c = (c \<noteq> x)"

definition dquote :: char where
  "dquote = CHR 0x22"

section \<open>Conversions\<close>

definition nat_of_digits :: "string \<Rightarrow> nat" where
  "nat_of_digits s = foldl (\<lambda>a c. 10 * a + (code c - 48)) 0 s"

text \<open>
  \<open>float(s)\<close> and \<open>int(s)\<close> on the texts the patterns can capture (digits, periods):
  a decimal numeral with at most one period and at least one digit is a float, a
  non-empty run of digits is an int, and anything else there is a \<open>ValueError\<close>.
\<close>

definition py_float :: "string \<Rightarrow> real outcome" where
  "py_float s =
     (let ip = takeWhile is_decimal s; r = dropWhile is_decimal s
      in case r of
           [] \<Rightarrow> if ip = [] then Inl ValueError else Inr (real (nat_of_digits ip))
         | c # fp \<Rightarrow>
             if c = CHR ''.'' \<and> list_all is_decimal fp \<and> (ip \<noteq> [] \<or> fp \<noteq> [])
             then Inr (real (nat_of_digits (ip @ fp)) / 10 ^ length fp)
             else Inl ValueError)"

definition py_int :: "string \<Rightarrow> int outcome" where
  "py_int s = (if s \<noteq> [] \<and> list_all is_decimal s then Inr (int (nat_of_digits s))
               else Inl ValueError)"

text \<open>\<open>s.replace(c, '')\<close> for a one-character \<open>c\<close>.\<close>

definition remove_char :: "char \<Rightarrow> string \<Rightarrow> string" where
  "remove_char x s = filter (\<lambda>c. c \<noteq> x) s"

text \<open>\<open>s.startswith(('[', '{'))\<close>.\<close>

definition starts_json :: "string \<Rightarrow> bool" where
  "starts_json s = (case s of [] \<Rightarrow> False | c # _ \<Rightarrow> c = CHR ''['' \<or> c = CHR ''{'')"

text \<open>\<open>s.startswith(('http://', 'https://'))\<close>.\<close>

definition has_scheme :: "string \<Rightarrow> bool" where
  "has_scheme s = (prefix ''http://'' s \<or> prefix ''https://'' s)"

section \<open>Extraction from the rendered markup (extractor.py)\<close>

text \<open>
  The source's private functions (\<open>_extract_name\<close> and the others) keep their names
  without the leading underscore, which a constant's name cannot start with.
\<close>

definition h1_pattern :: regex where
  "h1_pattern = seqs [Lit ''<h1'', star (not_char CHR ''>''), Lit ''>'',
                      Grp (lazy_star any_char), Lit ''</h1>'']"

definition tag_pattern :: regex where
  "tag_pattern = seqs [Lit ''<'', plus1 (not_char CHR ''>''), Lit ''>'']"

definition extract_name :: "string \<Rightarrow> string option" where
  "extract_name html_content =
     (case re_search h1_pattern html_content of
        None \<Rightarrow> None
      | Some (b, e, caps) \<Rightarrow>
          (let name = strip (re_sub_empty tag_pattern (group1 caps))
           in if name \<noteq> [] then Some name else None))"

definition rating_pattern :: regex where
  \<open>rating_pattern = seqs [Lit ''class="fontDisplayMedium">'',
      Grp (plus1 (\<lambda>c. is_decimal c \<or> c = CHR ''.'')), Lit ''</div>'']\<close>

definition extract_rating :: "string \<Rightarrow> real option" where
  "extract_rating html_content =
     (case re_search rating_pattern html_content of
        None \<Rightarrow> None
      | Some (b, e, caps) \<Rightarrow>
          (case py_float (group1 caps) of Inr x \<Rightarrow> Some x | Inl err \<Rightarrow> None))"

definition reviews_pattern :: regex where
  \<open>reviews_pattern = seqs [Lit ''fontDisplayMedium">'',
      plus1 (\<lambda>c. is_decimal c \<or> c = CHR ''.''), Lit ''<'', lazy_star any_char, Lit ''>'',
      Grp (plus1 (\<lambda>c. is_decimal c \<or> c = CHR '','')), plus1 is_space, Lit ''review'',
      Rep True 0 (Some 1) (\<lambda>c. c = CHR ''s'')]\<close>

definition extract_reviews_count :: "string \<Rightarrow> int option" where
  "extract_reviews_count html_content =
     (case re_search reviews_pattern html_content of
        None \<Rightarrow> None
      | Some (b, e, caps) \<Rightarrow>
          (case py_int (remove_char CHR ''.'' (remove_char CHR '','' (group1 caps))) of
             Inr n \<Rightarrow> Some n
           | Inl err \<Rightarrow> None))"

definition label_pattern :: "string \<Rightarrow> regex" where
  \<open>label_pattern what = seqs [Lit (''aria-label="'' @ what @ '':''), star is_space,
      Grp (lazy_star dot), star is_space, Lit [dquote]]\<close>

definition address_item_pattern :: regex where
  \<open>address_item_pattern = seqs [Lit ''data-item-id="address"'', star (not_char CHR ''>''),
      Lit ''aria-label="'', Grp (lazy_star dot), Lit [dquote]]\<close>

definition extract_address :: "string \<Rightarrow> string option" where
  "extract_address html_content =
     (case re_search (label_pattern ''Address'') html_content of
        Some (b, e, caps) \<Rightarrow> Some (strip (group1 caps))
      | None \<Rightarrow>
          (case re_search address_item_pattern html_content of
             Some (b, e, caps) \<Rightarrow>
               (let addr = strip (group1 caps)
                in Some (if prefix ''Address:'' addr then strip (drop 8 addr) else addr))
           | None \<Rightarrow> None))"

definition authority_pattern :: regex where
  \<open>authority_pattern = seqs [Lit ''data-item-id="authority"'', star (not_char CHR ''>''),
      Lit ''aria-label="'', lazy_star (not_char dquote),
      Grp (seqs [one is_word, plus1 (\<lambda>c. is_word c \<or> c = CHR ''.'' \<or> c = CHR ''-''),
                 Lit ''.'', Rep True 2 None is_word])]\<close>

definition with_scheme :: "string \<Rightarrow> string" where
  "with_scheme website = (if \<not> has_scheme website then ''https://'' @ website else website)"

definition authority_website :: "string \<Rightarrow> string option" where
  "authority_website html_content =
     (case re_search authority_pattern html_content of
        Some (b, e, caps) \<Rightarrow> Some (with_scheme (group1 caps))
      | None \<Rightarrow> None)"

definition extract_website :: "string \<Rightarrow> string option" where
  "extract_website html_content =
     (case re_search (label_pattern ''Website'') html_content of
        Some (b, e, caps) \<Rightarrow>
          (let website = strip (group1 caps)
           in if website \<noteq> [] then Some (with_scheme website)
              else authority_website html_content)
      | None \<Rightarrow> authority_website html_content)"

definition phone_item_pattern :: regex where
  \<open>phone_item_pattern = seqs [Lit ''data-item-id="phone:tel:'', Grp (plus1 is_decimal),
      Lit [dquote]]\<close>

definition extract_phone :: "string \<Rightarrow> string option" where
  "extract_phone html_content =
     (case re_search phone_item_pattern html_content of
        Some (b, e, caps) \<Rightarrow> Some (group1 caps)
      | None \<Rightarrow>
          (case re_search (label_pattern ''Phone'') html_content of
             Some (b, e, caps) \<Rightarrow>
               (let phone = filter is_decimal (group1 caps)
                in if phone \<noteq> [] then Some phone else None)
           | None \<Rightarrow> None))"

definition h1_whole_pattern :: regex where
  "h1_whole_pattern = seqs [Lit ''<h1'', star (not_char CHR ''>''), Lit ''>'',
                            lazy_star any_char, Lit ''</h1>'']"

definition span_pattern :: regex where
  "span_pattern = seqs [Lit ''<span'', star (not_char CHR ''>''), Lit ''>'',
      Grp (Rep True 2 (Some 50) (not_char CHR ''<'')), Lit ''</span>'']"

definition numeric_pattern :: regex where
  "numeric_pattern = seqs [plus1 (\<lambda>c. is_decimal c \<or> c \<in> set ''.,()''), Eol]"

definition middle_dot :: string where
  "middle_dot = [CHR 0xB7]"

text \<open>The body of the \<open>for span_text in spans\<close> loop, up to its \<open>break\<close>.\<close>

fun first_category :: "string list \<Rightarrow> string list" where
  "first_category [] = []"
| "first_category (span_text # spans) =
     (let text = strip span_text
      in if re_match numeric_pattern text \<noteq> None then first_category spans
         else if contains ''review'' (lower text) then first_category spans
         else if text \<in> set [middle_dot, ''$$'', ''$$$'', ''$$$$'', ''$''] \<or> text = middle_dot
         then first_category spans
         else if length text = 1 \<and> \<not> is_alpha (hd text) then first_category spans
         else if length text > 1 \<and> (is_alpha (hd text) \<or> is_digit (hd text)) then [text]
         else first_category spans)"

definition extract_categories :: "string \<Rightarrow> string list option" where
  "extract_categories html_content =
     (let categories =
        (case re_search h1_whole_pattern html_content of
           None \<Rightarrow> []
         | Some (b, h1_end, caps) \<Rightarrow>
             (let area = take 3000 (drop h1_end html_content)
              in first_category (findall span_pattern area)))
      in if categories \<noteq> [] then Some categories else None)"

section \<open>Dictionaries\<close>

text \<open>
  A Python \<open>dict\<close> is an association list in insertion order, with distinct keys.
  \<open>dict_get\<close> is \<open>d.get(k)\<close>, \<open>dict_set\<close> is \<open>d[k] = v\<close> and \<open>setdefault\<close> is
  \<open>d.setdefault(k, v)\<close>; the last two return the updated dictionary.
\<close>

type_synonym dict = "(string \<times> pyval) list"

definition dict_get :: "dict \<Rightarrow> string \<Rightarrow> pyval" where
  "dict_get d k = (case map_of d k of None \<Rightarrow> PNone | Some v \<Rightarrow> v)"

definition dict_set :: "dict \<Rightarrow> string \<Rightarrow> pyval \<Rightarrow> dict" where
  "dict_set d k v =
     (if map_of d k = None then d @ [(k, v)]
      else map (\<lambda>(k', v'). if k' = k then (k', v) else (k', v')) d)"

definition setdefault :: "dict \<Rightarrow> string \<Rightarrow> pyval \<Rightarrow> dict" where
  "setdefault d k v = (if map_of d k = None then d @ [(k, v)] else d)"

text \<open>\<open>sep.join(xs)\<close>: a \<open>TypeError\<close> when an item is not a string.\<close>

fun join_strs :: "string \<Rightarrow> pyval list \<Rightarrow> string outcome" where
  "join_strs sep [] = Inr []"
| "join_strs sep [PStr s] = Inr s"
| "join_strs sep (PStr s # x # xs) =
     (case join_strs sep (x # xs) of Inl e \<Rightarrow> Inl e | Inr r \<Rightarrow> Inr (s @ sep @ r))"
| "join_strs sep (v # xs) = Inl TypeError"

section \<open>The structured state parser (extractor.py)\<close>

text \<open>
  \<open>json.loads\<close> is the standard library's decoder, not code of this repository: the
  parser takes it as the parameter \<open>json_loads\<close>, which returns the decoded value or the
  exception it raises. Each function with a \<open>try\<close> block is modelled twice: \<open>f_try\<close> is
  the block, returning the dictionary as it stands when the block ends together with
  the exception that ended it, if any; \<open>f\<close> adds the \<open>except\<close> clause.
\<close>

definition coordinates_of :: "pyval \<Rightarrow> pyval \<Rightarrow> pyval" where
  "coordinates_of lat lng = PDict [(''latitude'', lat), (''longitude'', lng)]"

text \<open>The statements of \<open>_extract_legacy_blob\<close>, one definition for each \<open>if\<close>.\<close>

definition legacy_name :: "pyval list \<Rightarrow> dict \<Rightarrow> dict" where
  "legacy_name blob result =
     (if length blob > 11 \<and> truthy (blob ! 11)
      then setdefault result ''name'' (blob ! 11) else result)"

definition legacy_place_id :: "pyval list \<Rightarrow> dict \<Rightarrow> dict" where
  "legacy_place_id blob result =
     (if length blob > 10 \<and> truthy (blob ! 10)
      then setdefault result ''place_id'' (blob ! 10) else result)"

definition legacy_coordinates :: "pyval list \<Rightarrow> dict \<Rightarrow> dict" where
  "legacy_coordinates blob result =
     (if length blob > 9 \<and> is_list (blob ! 9) \<and> length (items (blob ! 9)) > 3
      then (let lat = items (blob ! 9) ! 2; lng = items (blob ! 9) ! 3
            in if is_number lat \<and> is_number lng
               then setdefault result ''coordinates'' (coordinates_of lat lng) else result)
      else result)"

definition legacy_rating :: "pyval list \<Rightarrow> dict \<Rightarrow> dict" where
  "legacy_rating b4 result =
     (if length b4 > 7 \<and> truthy (b4 ! 7) then setdefault result ''rating'' (b4 ! 7) else result)"

definition legacy_reviews_count :: "pyval list \<Rightarrow> dict \<Rightarrow> dict" where
  "legacy_reviews_count b4 result =
     (if length b4 > 8 \<and> truthy (b4 ! 8)
      then setdefault result ''reviews_count'' (b4 ! 8) else result)"

definition legacy_ratings :: "pyval list \<Rightarrow> dict \<Rightarrow> dict" where
  "legacy_ratings blob result =
     (if length blob > 4 \<and> is_list (blob ! 4)
      then legacy_reviews_count (items (blob ! 4)) (legacy_rating (items (blob ! 4)) result)
      else result)"

definition legacy_website :: "pyval list \<Rightarrow> dict \<Rightarrow> dict" where
  "legacy_website blob result =
     (if length blob > 7 \<and> is_list (blob ! 7) \<and> truthy (blob ! 7)
      then setdefault result ''website'' (items (blob ! 7) ! 0) else result)"

definition legacy_categories :: "pyval list \<Rightarrow> dict \<Rightarrow> dict" where
  "legacy_categories blob result =
     (if length blob > 13 \<and> truthy (blob ! 13)
      then setdefault result ''categories'' (blob ! 13) else result)"

text \<open>The join raises where the address list holds a truthy value that is not a string.\<close>

definition legacy_address :: "pyval list \<Rightarrow> dict \<Rightarrow> dict outcome" where
  "legacy_address blob result =
     (if length blob > 2 \<and> is_list (blob ! 2)
      then (case join_strs '', '' (filter truthy (items (blob ! 2))) of
              Inl e \<Rightarrow> Inl e
            | Inr addr \<Rightarrow>
                Inr (if addr \<noteq> [] then setdefault result ''address'' (PStr addr) else result))
      else Inr result)"

definition extract_legacy_blob_try :: "pyval list \<Rightarrow> dict \<Rightarrow> dict \<times> exn option" where
  "extract_legacy_blob_try blob result =
     (let r = legacy_website blob (legacy_ratings blob (legacy_coordinates blob
                (legacy_place_id blob (legacy_name blob result))))
      in case legacy_address blob r of
           Inl e \<Rightarrow> (r, Some e)
         | Inr r' \<Rightarrow> (legacy_categories blob r', None))"

text \<open>\<open>except Exception: pass\<close>.\<close>

definition extract_legacy_blob :: "pyval list \<Rightarrow> dict \<Rightarrow> dict outcome" where
  "extract_legacy_blob blob result =
     (case extract_legacy_blob_try blob result of (r, raised) \<Rightarrow> Inr r)"

text \<open>
  A call inside a \<open>try\<close> block: the dictionary it leaves, or the exception it raises on
  the dictionary as it was.
\<close>

definition called :: "dict \<Rightarrow> dict outcome \<Rightarrow> dict \<times> exn option" where
  "called result call = (case call of Inl e \<Rightarrow> (result, Some e) | Inr r \<Rightarrow> (r, None))"

text \<open>\<open>s.split(sep, 1)[1]\<close>, used where \<open>sep in s\<close>.\<close>

fun after_first :: "string \<Rightarrow> string \<Rightarrow> string" where
  "after_first sep [] = []"
| "after_first sep (c # cs) =
     (if prefix sep (c # cs) then drop (length sep) (c # cs) else after_first sep cs)"

text \<open>The texts \<open>)]}'\<close> and \<open>)'\<close> of the source; \<open>CHR 0x27\<close> is the apostrophe.\<close>

definition framing_prefix :: string where
  "framing_prefix = '')]}'' @ [CHR 0x27]"

definition split_text :: string where
  "split_text = '')'' @ [CHR 0x27]"

definition try_parse_legacy_string_try ::
    "(string \<Rightarrow> pyval outcome) \<Rightarrow> string \<Rightarrow> dict \<Rightarrow> dict \<times> exn option" where
  "try_parse_legacy_string_try json_loads blob_str result =
     (let inner_str =
            (if prefix framing_prefix blob_str
             then dropWhile (\<lambda>c. c = newline)
                    (if contains split_text blob_str
                     then after_first split_text blob_str
                     else drop 4 blob_str)
             else blob_str);
          inner_str = strip inner_str
      in if starts_json inner_str
         then (case json_loads inner_str of
                 Inl e \<Rightarrow> (result, Some e)
               | Inr parsed \<Rightarrow>
                   if is_list parsed \<and> length (items parsed) > 6 \<and> is_list (items parsed ! 6)
                   then called result (extract_legacy_blob (items (items parsed ! 6)) result)
                   else (result, None))
         else (result, None))"

text \<open>\<open>except (json.JSONDecodeError, Exception): pass\<close>.\<close>

definition try_parse_legacy_string ::
    "(string \<Rightarrow> pyval outcome) \<Rightarrow> string \<Rightarrow> dict \<Rightarrow> dict outcome" where
  "try_parse_legacy_string json_loads blob_str result =
     (case try_parse_legacy_string_try json_loads blob_str result of (r, raised) \<Rightarrow> Inr r)"

definition app_init_pattern :: regex where
  "app_init_pattern = seqs [Lit '';window.APP_INITIALIZATION_STATE'', star is_space, Lit ''='',
      star is_space, Grp (lazy_star any_char), Lit '';window.APP_FLAGS'']"

text \<open>Schema A: the place data at \<open>initial_data[5][3][2]\<close>.\<close>

definition schema_a :: "pyval \<Rightarrow> dict" where
  "schema_a initial_data =
     (if is_list initial_data \<and> length (items initial_data) > 5
         \<and> is_list (items initial_data ! 5) \<and> length (items (items initial_data ! 5)) > 3
         \<and> is_list (items (items initial_data ! 5) ! 3)
         \<and> length (items (items (items initial_data ! 5) ! 3)) > 2
         \<and> is_list (items (items (items initial_data ! 5) ! 3) ! 2)
      then (let data = items (items (items (items initial_data ! 5) ! 3) ! 2);
                r1 = (if length data > 1 \<and> is_str (data ! 0)
                      then dict_set [] ''place_id'' (data ! 0) else []);
                r2 = (if length data > 7 \<and> is_list (data ! 7) \<and> length (items (data ! 7)) > 3
                      then (let lat = items (data ! 7) ! 2; lng = items (data ! 7) ! 3
                            in if is_number lat \<and> is_number lng
                               then dict_set r1 ''coordinates'' (coordinates_of lat lng) else r1)
                      else r1)
            in r2)
      else [])"

text \<open>Schema B: the legacy blob at \<open>initial_data[3][6]\<close>, tried when schema A gave nothing.\<close>

definition schema_b ::
    "(string \<Rightarrow> pyval outcome) \<Rightarrow> pyval \<Rightarrow> dict \<Rightarrow> dict \<times> exn option" where
  "schema_b json_loads initial_data result =
     (if result = [] \<and> is_list initial_data \<and> length (items initial_data) > 3
      then (if is_list (items initial_data ! 3) \<and> length (items (items initial_data ! 3)) > 6
            then (let blob = items (items initial_data ! 3) ! 6
                  in case blob of
                       PList xs \<Rightarrow> called result (extract_legacy_blob xs result)
                     | PStr s \<Rightarrow> called result (try_parse_legacy_string json_loads s result)
                     | _ \<Rightarrow> (result, None))
            else (result, None))
      else (result, None))"

definition extract_from_app_init_state_try ::
    "(string \<Rightarrow> pyval outcome) \<Rightarrow> string \<Rightarrow> dict \<times> exn option" where
  "extract_from_app_init_state_try json_loads html_content =
     (case re_search app_init_pattern html_content of
        None \<Rightarrow> ([], None)
      | Some (b, e, caps) \<Rightarrow>
          (let json_str = strip (group1 caps)
           in if \<not> starts_json json_str then ([], None)
              else (case json_loads json_str of
                      Inl err \<Rightarrow> ([], Some err)
                    | Inr initial_data \<Rightarrow>
                        schema_b json_loads initial_data (schema_a initial_data))))"

text \<open>
  The \<open>except (json.JSONDecodeError, Exception)\<close> clause prints a note and falls through
  to \<open>return result\<close>. The result is an outcome, so that a raise would show as \<open>Inl\<close>.
\<close>

definition extract_from_app_init_state ::
    "(string \<Rightarrow> pyval outcome) \<Rightarrow> string \<Rightarrow> dict outcome" where
  "extract_from_app_init_state json_loads html_content =
     (case extract_from_app_init_state_try json_loads html_content of
        (result, raised) \<Rightarrow> Inr result)"

section \<open>Field resolution and the place record (extractor.py, extract_place_data)\<close>

text \<open>The seven values read from the rendered markup.\<close>

record rendered =
  r_name :: "string option"
  r_rating :: "real option"
  r_reviews_count :: "int option"
  r_address :: "string option"
  r_website :: "string option"
  r_phone :: "string option"
  r_categories :: "string list option"

definition rendered_fields :: "string \<Rightarrow> rendered" where
  "rendered_fields html_content =
     \<lparr> r_name = extract_name html_content,
       r_rating = extract_rating html_content,
       r_reviews_count = extract_reviews_count html_content,
       r_address = extract_address html_content,
       r_website = extract_website html_content,
       r_phone = extract_phone html_content,
       r_categories = extract_categories html_content \<rparr>"

text \<open>The rendered values as Python values (\<open>None\<close> when absent).\<close>

definition str_value :: "string option \<Rightarrow> pyval" where
  "str_value x = (case x of None \<Rightarrow> PNone | Some s \<Rightarrow> PStr s)"

definition float_value :: "real option \<Rightarrow> pyval" where
  "float_value x = (case x of None \<Rightarrow> PNone | Some r \<Rightarrow> PFloat r)"

definition int_value :: "int option \<Rightarrow> pyval" where
  "int_value x = (case x of None \<Rightarrow> PNone | Some n \<Rightarrow> PInt n)"

definition strs_value :: "string list option \<Rightarrow> pyval" where
  "strs_value x = (case x of None \<Rightarrow> PNone | Some ss \<Rightarrow> PList (map PStr ss))"

text \<open>The local variables of \<open>extract_place_data\<close> after the fallback block.\<close>

record place_fields =
  name :: pyval
  place_id :: pyval
  coordinates :: pyval
  address :: pyval
  rating :: pyval
  reviews_count :: pyval
  categories :: pyval
  website :: pyval
  phone :: pyval

text \<open>\<open>if not x: x = init_data.get(k)\<close>.\<close>

definition fallback :: "pyval \<Rightarrow> dict \<Rightarrow> string \<Rightarrow> pyval" where
  "fallback x init_data k = (if \<not> truthy x then dict_get init_data k else x)"

definition resolve_fields :: "rendered \<Rightarrow> dict \<Rightarrow> place_fields" where
  "resolve_fields r init_data =
     \<lparr> name = fallback (str_value (r_name r)) init_data ''name'',
       place_id = dict_get init_data ''place_id'',
       coordinates = dict_get init_data ''coordinates'',
       address = fallback (str_value (r_address r)) init_data ''address'',
       rating = fallback (float_value (r_rating r)) init_data ''rating'',
       reviews_count = fallback (int_value (r_reviews_count r)) init_data ''reviews_count'',
       categories = fallback (strs_value (r_categories r)) init_data ''categories'',
       website = fallback (str_value (r_website r)) init_data ''website'',
       phone = str_value (r_phone r) \<rparr>"

text \<open>
  \<open>place_details\<close> starts empty and each assignment is to a fresh key, so the
  dictionary is the list of the entries kept, in the order of the assignments.
\<close>

definition entry :: "bool \<Rightarrow> string \<Rightarrow> pyval \<Rightarrow> dict" where
  "entry keep k v = (if keep then [(k, v)] else [])"

definition build_place_details :: "place_fields \<Rightarrow> dict" where
  "build_place_details f =
     entry (truthy (name f)) ''name'' (name f)
     @ entry (truthy (place_id f)) ''place_id'' (place_id f)
     @ entry (truthy (coordinates f)) ''coordinates'' (coordinates f)
     @ entry (truthy (address f)) ''address'' (address f)
     @ entry (rating f \<noteq> PNone) ''rating'' (rating f)
     @ entry (reviews_count f \<noteq> PNone) ''reviews_count'' (reviews_count f)
     @ entry (truthy (categories f)) ''categories'' (categories f)
     @ entry (truthy (website f)) ''website'' (website f)
     @ entry (truthy (phone f)) ''phone'' (phone f)"

text \<open>
  \<open>html_content\<close> is \<open>None\<close> or a string. The result is \<open>Inr None\<close> for Python's
  \<open>None\<close>, \<open>Inr (Some d)\<close> for a record, and \<open>Inl e\<close> if an exception left the function.
\<close>

definition extract_place_data ::
    "(string \<Rightarrow> pyval outcome) \<Rightarrow> string option \<Rightarrow> dict option outcome" where
  "extract_place_data json_loads html_content =
     (case html_content of
        None \<Rightarrow> Inr None
      | Some html \<Rightarrow>
          if html = [] then Inr None
          else (case extract_from_app_init_state json_loads html of
                  Inl e \<Rightarrow> Inl e
                | Inr init_data \<Rightarrow>
                    (let place_details =
                           build_place_details (resolve_fields (rendered_fields html) init_data)
                     in Inr (if place_details \<noteq> [] then Some place_details else None))))"

section \<open>The collection run (scraper.py, scrape_google_maps)\<close>

text \<open>
  The browser belongs to the driver. The run is modelled over what the driver calls
  return or raise: one \<open>scroll_obs\<close> for each pass of the scroll loop, one \<open>item_obs\<close>
  for each link visited. The pauses (\<open>smart_delay\<close>, \<open>asyncio.sleep\<close>) only take time and
  are not part of the model. \<open>place_links\<close> is a Python set: it is modelled as a list
  without repetitions, whose order stands for the order in which Python iterates the set.
\<close>

definition MAX_SCROLL_ATTEMPTS_WITHOUT_NEW_LINKS :: nat where
  "MAX_SCROLL_ATTEMPTS_WITHOUT_NEW_LINKS = 15"

record scroll_obs =
  scrolled :: "unit outcome"
  current_links_list :: "string list outcome"
  new_height :: "int outcome"
  end_marker_count :: "nat outcome"

record scroll_state =
  place_links :: "string list"
  last_height :: int
  scroll_attempts_no_new :: nat
  scroll_iteration :: nat

datatype loop_exit = CapReached | EndMarker | NoProgress

text \<open>
  The loop has no bound of its own. \<open>Running\<close> is the loop still going when the
  observations end, \<open>Break\<close> one of its three \<open>break\<close> statements, \<open>LoopRaised\<close> a driver
  call that raised.
\<close>

datatype loop_result = Running scroll_state | Break loop_exit scroll_state | LoopRaised exn

text \<open>\<open>xs[:m]\<close>; a negative \<open>m\<close> counts from the end.\<close>

definition py_slice_to :: "'a list \<Rightarrow> int \<Rightarrow> 'a list" where
  "py_slice_to xs m = (if 0 \<le> m then take (nat m) xs else take (length xs - nat (- m)) xs)"

text \<open>\<open>place_links.update(current_links)\<close>.\<close>

definition update_links :: "string list \<Rightarrow> string list \<Rightarrow> string list" where
  "update_links links current = links @ filter (\<lambda>x. x \<notin> set links) (remdups current)"

text \<open>\<open>max_places is not None and len(place_links) >= max_places\<close>.\<close>

definition cap_reached :: "int option \<Rightarrow> string list \<Rightarrow> bool" where
  "cap_reached max_places links =
     (case max_places of None \<Rightarrow> False | Some m \<Rightarrow> int (length links) \<ge> m)"

text \<open>
  One pass of the \<open>while True\<close> body: \<open>Running\<close> with the new state when the pass
  reaches the end of the body, \<open>Break\<close> or \<open>LoopRaised\<close> otherwise.
\<close>

definition scroll_step :: "int option \<Rightarrow> scroll_obs \<Rightarrow> scroll_state \<Rightarrow> loop_result" where
  "scroll_step max_places ob st =
     (case scrolled ob of
        Inl e \<Rightarrow> LoopRaised e
      | Inr u \<Rightarrow>
     (case current_links_list ob of
        Inl e \<Rightarrow> LoopRaised e
      | Inr current \<Rightarrow>
     (let new_links_found = list_ex (\<lambda>x. x \<notin> set (place_links st)) current;
          st1 = st\<lparr>scroll_iteration := Suc (scroll_iteration st),
                   place_links := update_links (place_links st) current\<rparr>
      in if cap_reached max_places (place_links st1)
         then Break CapReached
                (st1\<lparr>place_links := py_slice_to (place_links st1) (the max_places)\<rparr>)
         else
     (case new_height ob of
        Inl e \<Rightarrow> LoopRaised e
      | Inr h \<Rightarrow>
          if h = last_height st1
          then (case end_marker_count ob of
                  Inl e \<Rightarrow> LoopRaised e
                | Inr k \<Rightarrow>
                    if k > 0 then Break EndMarker st1
                    else if \<not> new_links_found
                    then (let st2 = st1\<lparr>scroll_attempts_no_new :=
                                          Suc (scroll_attempts_no_new st1)\<rparr>
                          in if scroll_attempts_no_new st2
                                  \<ge> MAX_SCROLL_ATTEMPTS_WITHOUT_NEW_LINKS
                             then Break NoProgress st2
                             else Running st2)
                    else Running (st1\<lparr>scroll_attempts_no_new := 0\<rparr>))
          else Running (st1\<lparr>last_height := h, scroll_attempts_no_new := 0\<rparr>)))))"

fun scroll_loop :: "int option \<Rightarrow> scroll_obs list \<Rightarrow> scroll_state \<Rightarrow> loop_result" where
  "scroll_loop max_places [] st = Running st"
| "scroll_loop max_places (ob # obs) st =
     (case scroll_step max_places ob st of
        Running st' \<Rightarrow> scroll_loop max_places obs st'
      | Break why st' \<Rightarrow> Break why st'
      | LoopRaised e \<Rightarrow> LoopRaised e)"

text \<open>
  The states at the start of the passes the loop makes: the state the loop starts in,
  then the state each pass hands to the next.
\<close>

fun states_before :: "int option \<Rightarrow> scroll_obs list \<Rightarrow> scroll_state \<Rightarrow> scroll_state list" where
  "states_before max_places [] st = []"
| "states_before max_places (ob # obs) st =
     st # (case scroll_step max_places ob st of
             Running st' \<Rightarrow> states_before max_places obs st'
           | Break why st' \<Rightarrow> []
           | LoopRaised e \<Rightarrow> [])"

text \<open>
  A pass in which nothing moved (no new link, the scroll height unchanged, no end
  marker), and a pass that shows the end marker with the scroll height unchanged.
\<close>

definition stalled :: "string list \<Rightarrow> int \<Rightarrow> scroll_obs \<Rightarrow> bool" where
  "stalled links h ob =
     ((case current_links_list ob of
         Inl e \<Rightarrow> False
       | Inr current \<Rightarrow> \<not> list_ex (\<lambda>x. x \<notin> set links) current)
      \<and> new_height ob = Inr h \<and> end_marker_count ob = Inr 0)"

definition marker_visible :: "int \<Rightarrow> scroll_obs \<Rightarrow> bool" where
  "marker_visible h ob =
     (new_height ob = Inr h
      \<and> (case end_marker_count ob of Inl e \<Rightarrow> False | Inr k \<Rightarrow> k > 0))"

text \<open>
  What the run sees before the per-item loop: how the wait for the feed ended, the
  page's URL, the number of feed elements, the feed's first scroll height, the passes.
\<close>

record collect_obs =
  feed_wait :: "unit outcome"
  page_url :: string
  feed_count :: "nat outcome"
  first_height :: "int outcome"
  scrolls :: "scroll_obs list"

text \<open>
  \<open>NoFeed\<close> is the early \<open>return []\<close>, \<open>Raised\<close> an exception on its way to the
  outer handler, \<open>Scrolling\<close> the loop still going, \<open>Links\<close> the set the per-item loop gets.
\<close>

datatype collected = NoFeed | Raised exn | Scrolling | Links "string list"

definition after_wait :: "int option \<Rightarrow> collect_obs \<Rightarrow> string list \<Rightarrow> collected" where
  "after_wait max_places ob links =
     (case feed_count ob of
        Inl e \<Rightarrow> Raised e
      | Inr n \<Rightarrow>
          if n > 0
          then (case first_height ob of
                  Inl e \<Rightarrow> Raised e
                | Inr h \<Rightarrow>
                    (case scroll_loop max_places (scrolls ob)
                            \<lparr>place_links = links, last_height = h,
                             scroll_attempts_no_new = 0, scroll_iteration = 0\<rparr> of
                       Running st \<Rightarrow> Scrolling
                     | Break why st \<Rightarrow> Links (place_links st)
                     | LoopRaised e \<Rightarrow> Raised e))
          else Links links)"

definition collect_links :: "int option \<Rightarrow> collect_obs \<Rightarrow> collected" where
  "collect_links max_places ob =
     (case feed_wait ob of
        Inr u \<Rightarrow> after_wait max_places ob []
      | Inl e \<Rightarrow>
          if e = TimeoutError
          then (if contains ''/maps/place/'' (page_url ob)
                then after_wait max_places ob [page_url ob]
                else NoFeed)
          else Raised e)"

text \<open>
  The status texts written over \<open>website\<close>. The two with letters beyond Latin-1
  (\<open>Gre\<close>s\<open>ka pri u\<close>c\<open>itavanju\<close>, \<open>Gre\<close>s\<open>ka pri provjeri\<close>, with carons) are given in UTF-8.
\<close>

definition greska :: string where
  "greska = ''Gre'' @ [CHR 0xC5, CHR 0xA1] @ ''ka pri ''"

definition status_text :: "string \<Rightarrow> string option" where
  "status_text website_status =
     (if website_status = ''accessible'' then None
      else if website_status = ''forbidden'' then Some ''Potreban pristup''
      else if website_status = ''timeout'' then Some ''Timeout''
      else if website_status = ''error''
      then Some (greska @ ''u'' @ [CHR 0xC4, CHR 0x8D] @ ''itavanju'')
      else None)"

definition mark_website :: "dict \<Rightarrow> string \<Rightarrow> pyval \<Rightarrow> dict" where
  "mark_website place_data text website_url =
     dict_set (dict_set place_data ''website'' (PStr text)) ''original_website'' website_url"

record item_obs =
  nav :: "unit outcome"
  content :: "string outcome"
  probe :: goto_result

text \<open>One pass of the per-item loop: the results list after the link is processed.\<close>

definition process_link ::
    "(string \<Rightarrow> pyval outcome) \<Rightarrow> string \<Rightarrow> item_obs \<Rightarrow> dict list \<Rightarrow> dict list" where
  "process_link json_loads link ob results =
     (case nav ob of
        Inl e \<Rightarrow> results
      | Inr u \<Rightarrow>
     (case content ob of
        Inl e \<Rightarrow> results
      | Inr html_content \<Rightarrow>
     (case extract_place_data json_loads (Some html_content) of
        Inl e \<Rightarrow> results
      | Inr None \<Rightarrow> results
      | Inr (Some extracted) \<Rightarrow>
          if extracted \<noteq> []
          then (let place_data = dict_set extracted ''link'' (PStr link);
                    website_url = (case map_of place_data ''website'' of
                                     None \<Rightarrow> PStr [] | Some v \<Rightarrow> v);
                    place_data =
                      (if truthy website_url
                          \<and> website_url \<notin> set [PStr [], PStr ''N/A'', PNone]
                       then (case try_load_website (probe ob) of
                               Inr website_status \<Rightarrow>
                                 (case status_text website_status of
                                    None \<Rightarrow> place_data
                                  | Some text \<Rightarrow> mark_website place_data text website_url)
                             | Inl e \<Rightarrow>
                                 mark_website place_data (greska @ ''provjeri'') website_url)
                       else place_data)
                in results @ [place_data])
          else results)))"

record run_obs =
  startup :: "unit outcome"
  collecting :: collect_obs
  visit :: "string \<Rightarrow> item_obs"

definition scrape_google_maps ::
    "(string \<Rightarrow> pyval outcome) \<Rightarrow> int option \<Rightarrow> run_obs \<Rightarrow> dict list" where
  "scrape_google_maps json_loads max_places ob =
     (case startup ob of
        Inl e \<Rightarrow> []
      | Inr u \<Rightarrow>
          (case collect_links max_places (collecting ob) of
             Links links \<Rightarrow>
               foldl (\<lambda>results link. process_link json_loads link (visit ob link) results)
                     [] links
           | _ \<Rightarrow> []))"

section \<open>Example inputs\<close>

text \<open>
  A decoder for the examples: it knows the listed documents and their values, and every
  other text is a decode error. The theorems hold for every decoder.
\<close>

definition json_table :: "(string \<times> pyval) list \<Rightarrow> string \<Rightarrow> pyval outcome" where
  "json_table docs s = (case map_of docs s of None \<Rightarrow> Inl JSONDecodeError | Some v \<Rightarrow> Inr v)"

text \<open>A rating block followed by a review count written with a comma, and with a period.\<close>

definition reviews_comma_html :: string where
  \<open>reviews_comma_html =
     ''<div class="fontDisplayMedium">4.5</div><span>1,234 reviews</span>''\<close>

definition reviews_period_html :: string where
  \<open>reviews_period_html =
     ''<div class="fontDisplayMedium">4.5</div><span>1.234 reviews</span>''\<close>

text \<open>A page whose only readable field is a rating of zero.\<close>

definition zero_rating_html :: string where
  \<open>zero_rating_html = ''<div class="fontDisplayMedium">0</div>''\<close>

text \<open>A page with a rating and a review count of zero.\<close>

definition zero_reviews_html :: string where
  \<open>zero_reviews_html =
     ''<div class="fontDisplayMedium">4.5</div><span>0 reviews</span>''\<close>

text \<open>
  A legacy blob whose name is \<open>A)'B\<close>: the JSON text of the body, the value it decodes
  to, and the string-framed form (the framing prefix, a newline, the body).
\<close>

definition quoted_name :: string where
  "quoted_name = ''A)'' @ [CHR 0x27] @ ''B''"

definition legacy_body_text :: string where
  \<open>legacy_body_text = ''[0,0,0,0,0,0,[0,0,0,0,0,0,0,0,0,0,0,"'' @ quoted_name @ ''"]]''\<close>

definition legacy_body_value :: pyval where
  "legacy_body_value =
     PList (replicate 6 (PInt 0) @ [PList (replicate 11 (PInt 0) @ [PStr quoted_name])])"

definition framed_blob :: string where
  "framed_blob = framing_prefix @ [newline] @ legacy_body_text"

definition example_rendered :: rendered where
  "example_rendered =
     \<lparr> r_name = Some ''Cafe'', r_rating = None, r_reviews_count = Some 0, r_address = Some [],
       r_website = None, r_phone = None, r_categories = None \<rparr>"

definition example_structured :: dict where
  "example_structured =
     [(''place_id'', PStr ''0x1''), (''name'', PStr ''Old''), (''rating'', PFloat 4),
      (''address'', PStr ''Main St'')]"

definition blank_html :: string where
  "blank_html = ''<html></html>''"

definition named_html :: string where
  "named_html = ''<h1>Cafe</h1>''"

definition not_json_html :: string where
  "not_json_html = '';window.APP_INITIALIZATION_STATE=null;window.APP_FLAGS''"

definition bad_json_html :: string where
  "bad_json_html = '';window.APP_INITIALIZATION_STATE = [1,;window.APP_FLAGS''"

definition object_html :: string where
  "object_html = '';window.APP_INITIALIZATION_STATE={};window.APP_FLAGS''"

definition mixed_blob :: "pyval list" where
  "mixed_blob = replicate 2 (PInt 0) @ [PList [PInt 5]] @ replicate 8 (PInt 0)
                @ [PStr ''Cafe'', PInt 0, PStr ''Bar'']"

definition blank_visit :: item_obs where
  "blank_visit = \<lparr> nav = Inr (), content = Inr blank_html, probe = NoResponse \<rparr>"

definition start_state :: scroll_state where
  "start_state = \<lparr> place_links = [], last_height = 500, scroll_attempts_no_new = 0,
                   scroll_iteration = 0 \<rparr>"

definition growing_pass :: scroll_obs where
  "growing_pass = \<lparr> scrolled = Inr (),
       current_links_list = Inr [''https://www.google.com/maps/place/A''],
       new_height = Inr 900, end_marker_count = Inr 0 \<rparr>"

definition stalled_pass :: scroll_obs where
  "stalled_pass = \<lparr> scrolled = Inr (), current_links_list = Inr [],
       new_height = Inr 500, end_marker_count = Inr 0 \<rparr>"

definition end_pass :: scroll_obs where
  "end_pass = \<lparr> scrolled = Inr (), current_links_list = Inr [],
       new_height = Inr 500, end_marker_count = Inr 1 \<rparr>"

definition single_place_obs :: collect_obs where
  "single_place_obs = \<lparr> feed_wait = Inl TimeoutError,
       page_url = ''https://www.google.com/maps/place/Cafe'',
       feed_count = Inr 0, first_height = Inr 0, scrolls = [] \<rparr>"

definition feed_obs :: collect_obs where
  "feed_obs = \<lparr> feed_wait = Inr (), page_url = ''https://www.google.com/maps/search/?q=cafe'',
       feed_count = Inr 1, first_height = Inr 500, scrolls = [growing_pass] \<rparr>"

definition end_state :: scroll_state where
  "end_state = \<lparr> place_links = [], last_height = 500, scroll_attempts_no_new = 0,
                 scroll_iteration = 1 \<rparr>"

definition stalled_state :: scroll_state where
  "stalled_state = \<lparr> place_links = [], last_height = 500, scroll_attempts_no_new = 15,
                     scroll_iteration = 15 \<rparr>"

text \<open>A pass that reads three links, and a search page whose loop makes that pass.\<close>

definition three_links_pass :: scroll_obs where
  "three_links_pass = \<lparr> scrolled = Inr (),
       current_links_list = Inr [''https://www.google.com/maps/place/A'',
                                 ''https://www.google.com/maps/place/B'',
                                 ''https://www.google.com/maps/place/C''],
       new_height = Inr 900, end_marker_count = Inr 0 \<rparr>"

definition three_links_obs :: collect_obs where
  "three_links_obs = \<lparr> feed_wait = Inr (),
       page_url = ''https://www.google.com/maps/search/?q=cafe'',
       feed_count = Inr 1, first_height = Inr 500, scrolls = [three_links_pass] \<rparr>"

definition two_links_state :: scroll_state where
  "two_links_state = \<lparr> place_links = [''https://www.google.com/maps/place/A'',
                                        ''https://www.google.com/maps/place/B''],
       last_height = 500, scroll_attempts_no_new = 0, scroll_iteration = 1 \<rparr>"

section \<open>Properties of the website probe\<close>

text \<open>
  C2. The probe never raises past its own boundary and returns exactly one of
  accessible, forbidden, timeout, error: statuses 401, 403 and 451 give forbidden, every
  other status from 400 on gives error, statuses below 400 give accessible, no response
  object gives error, a timeout exception gives timeout, and any other exception gives
  forbidden when its lower-cased text contains one of the keywords and error otherwise.
\<close>

theorem try_load_website_classifies:
  "(\<exists>s. try_load_website g = Inr s
        \<and> s \<in> {''accessible'', ''forbidden'', ''timeout'', ''error''})
   \<and> (sc \<in> {401, 403, 451} \<longrightarrow> try_load_website (Response sc) = Inr ''forbidden'')
   \<and> (400 \<le> sc \<and> sc \<notin> {401, 403, 451} \<longrightarrow> try_load_website (Response sc) = Inr ''error'')
   \<and> (sc < 400 \<longrightarrow> try_load_website (Response sc) = Inr ''accessible'')
   \<and> try_load_website NoResponse = Inr ''error''
   \<and> try_load_website (RaisesTimeout msg) = Inr ''timeout''
   \<and> ((\<exists>k \<in> set forbidden_keywords. contains k (lower msg))
        \<longrightarrow> try_load_website (RaisesOther msg) = Inr ''forbidden'')
   \<and> (\<not> (\<exists>k \<in> set forbidden_keywords. contains k (lower msg))
        \<longrightarrow> try_load_website (RaisesOther msg) = Inr ''error'')"
  by (cases g) (auto simp: try_load_website_def Let_def list_ex_iff)

theorem try_load_website_classifies_witness:
  "try_load_website (Response 403) = Inr ''forbidden''
   \<and> try_load_website (Response 500) = Inr ''error''
   \<and> try_load_website (Response 200) = Inr ''accessible''
   \<and> try_load_website (RaisesOther ''net::ERR Access Denied by host'') = Inr ''forbidden''
   \<and> try_load_website (RaisesOther ''net::ERR_NAME_NOT_RESOLVED'') = Inr ''error''"
proof -
  have a: "\<exists>k \<in> set forbidden_keywords. contains k (lower ''net::ERR Access Denied by host'')"
    by code_simp
  have b: "\<not> (\<exists>k \<in> set forbidden_keywords. contains k (lower ''net::ERR_NAME_NOT_RESOLVED''))"
    by code_simp
  show ?thesis
    using try_load_website_classifies [of "Response 403" 403 "''net::ERR Access Denied by host''"]
          try_load_website_classifies [of "Response 500" 500 "''net::ERR_NAME_NOT_RESOLVED''"]
          try_load_website_classifies [of "Response 200" 200 "''x''"] a b
    by simp
qed

section \<open>Properties of the extractor\<close>

lemma app_init_state_returns:
  "extract_from_app_init_state jl html = Inr (fst (extract_from_app_init_state_try jl html))"
  by (simp add: extract_from_app_init_state_def split: prod.splits)

lemma map_of_entry [simp]:
  "map_of (entry keep k v) k' = (if keep \<and> k' = k then Some v else None)"
  by (simp add: entry_def)

lemma build_lookup:
  "map_of (build_place_details f) ''name'' = (if truthy (name f) then Some (name f) else None)"
  "map_of (build_place_details f) ''place_id''
     = (if truthy (place_id f) then Some (place_id f) else None)"
  "map_of (build_place_details f) ''coordinates''
     = (if truthy (coordinates f) then Some (coordinates f) else None)"
  "map_of (build_place_details f) ''address''
     = (if truthy (address f) then Some (address f) else None)"
  "map_of (build_place_details f) ''rating''
     = (if rating f \<noteq> PNone then Some (rating f) else None)"
  "map_of (build_place_details f) ''reviews_count''
     = (if reviews_count f \<noteq> PNone then Some (reviews_count f) else None)"
  "map_of (build_place_details f) ''categories''
     = (if truthy (categories f) then Some (categories f) else None)"
  "map_of (build_place_details f) ''website''
     = (if truthy (website f) then Some (website f) else None)"
  "map_of (build_place_details f) ''phone'' = (if truthy (phone f) then Some (phone f) else None)"
  by (simp_all add: build_place_details_def map_add_def)

text \<open>
  C9. For \<open>None\<close> and for the empty string \<open>extract_place_data\<close> returns \<open>None\<close> at
  once: the result does not depend on the decoder, and no record is produced.
\<close>

theorem extract_place_data_empty_input:
  "extract_place_data json_loads None = Inr None
   \<and> extract_place_data json_loads (Some []) = Inr None"
  by (simp add: extract_place_data_def)

text \<open>
  C7 (the code departs from the claim). With a comma as thousands separator the count
  is read in full; with a period the pattern's group \<open>[\d,]+\<close> stops at the period, the
  search finds nothing, and the count is absent although \<open>replace('.', '')\<close> is there to
  strip periods.
\<close>

theorem reviews_count_period_separator:
  "extract_reviews_count reviews_period_html = None
   \<and> extract_reviews_count reviews_comma_html = Some 1234"
  by code_simp

text \<open>
  C8 (the code departs from the claim). The string-framed blob whose body contains
  \<open>)'\<close> is cut at that text instead of after the prefix: whatever the decoder, nothing is
  extracted, while the direct-sequence form of the same blob gives the name.
\<close>

theorem legacy_string_prefix_stripping:
  "try_parse_legacy_string jl framed_blob [] = Inr []
   \<and> json_table [(legacy_body_text, legacy_body_value)] legacy_body_text = Inr legacy_body_value
   \<and> extract_legacy_blob (items (items legacy_body_value ! 6)) []
       = Inr [(''name'', PStr quoted_name)]"
proof -
  have "try_parse_legacy_string jl framed_blob [] = Inr []"
    by (simp add: try_parse_legacy_string_def try_parse_legacy_string_try_def framed_blob_def
        framing_prefix_def split_text_def legacy_body_text_def quoted_name_def newline_def
        starts_json_def strip_def is_space_def code_def Let_def)
  moreover have "json_table [(legacy_body_text, legacy_body_value)] legacy_body_text
      = Inr legacy_body_value"
    by (simp add: json_table_def)
  moreover have "extract_legacy_blob (items (items legacy_body_value ! 6)) []
      = Inr [(''name'', PStr quoted_name)]"
    by code_simp
  ultimately show ?thesis by simp
qed

text \<open>
  Where the body does not contain \<open>)'\<close>, stripping the prefix and decoding are
  transparent: the framed form gives what the direct form gives.
\<close>

lemma contains_framed:
  "contains split_text (framing_prefix @ body) = contains split_text body"
  by (simp add: framing_prefix_def split_text_def)

lemma legacy_string_transparent:
  assumes "\<not> contains split_text body"
    and "inner = strip (dropWhile (\<lambda>c. c = newline) body)"
    and "starts_json inner" and "jl inner = Inr parsed"
    and "is_list parsed" and "length (items parsed) > 6" and "is_list (items parsed ! 6)"
  shows "try_parse_legacy_string jl (framing_prefix @ body) result
           = extract_legacy_blob (items (items parsed ! 6)) result"
proof -
  have l: "length framing_prefix = 4"
    by (simp add: framing_prefix_def)
  have "try_parse_legacy_string_try jl (framing_prefix @ body) result
          = called result (extract_legacy_blob (items (items parsed ! 6)) result)"
    using assms by (simp add: try_parse_legacy_string_try_def contains_framed l Let_def)
  then show ?thesis
    by (simp add: try_parse_legacy_string_def called_def extract_legacy_blob_def
        split: prod.splits)
qed

lemma setdefault_lookup:
  "map_of (setdefault d k v) k' = (if k' = k \<and> map_of d k = None then Some v else map_of d k')"
  by (auto simp: setdefault_def map_add_def split: option.splits)

lemma dict_set_lookup:
  "map_of (dict_set d k v) k' = (if k' = k then Some v else map_of d k')"
proof -
  have "map_of (map (\<lambda>(k', v'). if k' = k then (k', v) else (k', v')) d) k'
          = (if k' = k \<and> map_of d k \<noteq> None then Some v else map_of d k')"
    by (induction d) auto
  then show ?thesis
    by (auto simp: dict_set_def map_add_def split: option.splits)
qed

lemmas legacy_steps = legacy_name_def legacy_place_id_def legacy_coordinates_def
  legacy_rating_def legacy_reviews_count_def legacy_ratings_def legacy_website_def
  legacy_categories_def

lemma legacy_step_kept:
  assumes "map_of result k = Some v"
  shows "map_of (legacy_name blob result) k = Some v"
    and "map_of (legacy_place_id blob result) k = Some v"
    and "map_of (legacy_coordinates blob result) k = Some v"
    and "map_of (legacy_ratings blob result) k = Some v"
    and "map_of (legacy_website blob result) k = Some v"
    and "map_of (legacy_categories blob result) k = Some v"
  using assms by (auto simp: legacy_steps Let_def setdefault_lookup)

lemma legacy_address_kept:
  "map_of result k = Some v \<Longrightarrow> legacy_address blob result = Inr r \<Longrightarrow> map_of r k = Some v"
  by (auto simp: legacy_address_def setdefault_lookup split: if_splits sum.splits)

lemma legacy_blob_lookup_kept:
  assumes "map_of result k = Some v"
  shows "map_of (fst (extract_legacy_blob_try blob result)) k = Some v"
proof -
  define r where "r = legacy_website blob (legacy_ratings blob (legacy_coordinates blob
                (legacy_place_id blob (legacy_name blob result))))"
  have r: "map_of r k = Some v"
    unfolding r_def by (intro legacy_step_kept assms)
  show ?thesis
  proof (cases "legacy_address blob r")
    case (Inl e)
    then show ?thesis
      using r by (simp add: extract_legacy_blob_try_def r_def [symmetric])
  next
    case (Inr r')
    then have "map_of r' k = Some v"
      using r legacy_address_kept by blast
    then show ?thesis
      using Inr by (simp add: extract_legacy_blob_try_def r_def [symmetric] legacy_step_kept)
  qed
qed

lemma legacy_step_numeric:
  assumes "k = ''rating'' \<or> k = ''reviews_count''"
    and "\<forall>v. map_of result k = Some v \<longrightarrow> truthy v"
  shows "\<forall>v. map_of (legacy_name blob result) k = Some v \<longrightarrow> truthy v"
    and "\<forall>v. map_of (legacy_place_id blob result) k = Some v \<longrightarrow> truthy v"
    and "\<forall>v. map_of (legacy_coordinates blob result) k = Some v \<longrightarrow> truthy v"
    and "\<forall>v. map_of (legacy_ratings blob result) k = Some v \<longrightarrow> truthy v"
    and "\<forall>v. map_of (legacy_website blob result) k = Some v \<longrightarrow> truthy v"
    and "\<forall>v. map_of (legacy_categories blob result) k = Some v \<longrightarrow> truthy v"
  using assms by (auto simp: legacy_steps Let_def setdefault_lookup split: if_splits)

lemma legacy_address_numeric:
  assumes "k = ''rating'' \<or> k = ''reviews_count''"
    and "\<forall>v. map_of result k = Some v \<longrightarrow> truthy v"
    and "legacy_address blob result = Inr r"
  shows "\<forall>v. map_of r k = Some v \<longrightarrow> truthy v"
  using assms by (auto simp: legacy_address_def setdefault_lookup split: if_splits sum.splits)

lemma legacy_blob_numeric:
  assumes k: "k = ''rating'' \<or> k = ''reviews_count''"
    and res: "\<forall>v. map_of result k = Some v \<longrightarrow> truthy v"
  shows "\<forall>v. map_of (fst (extract_legacy_blob_try blob result)) k = Some v \<longrightarrow> truthy v"
proof -
  define r where "r = legacy_website blob (legacy_ratings blob (legacy_coordinates blob
                (legacy_place_id blob (legacy_name blob result))))"
  have r: "\<forall>v. map_of r k = Some v \<longrightarrow> truthy v"
    unfolding r_def by (intro legacy_step_numeric k res)
  show ?thesis
  proof (cases "legacy_address blob r")
    case (Inl e)
    then show ?thesis
      using r by (simp add: extract_legacy_blob_try_def r_def [symmetric])
  next
    case (Inr r')
    then have "\<forall>v. map_of r' k = Some v \<longrightarrow> truthy v"
      using legacy_address_numeric [OF k r] by blast
    then have "\<forall>v. map_of (legacy_categories blob r') k = Some v \<longrightarrow> truthy v"
      by (intro legacy_step_numeric k)
    then show ?thesis
      using Inr by (simp add: extract_legacy_blob_try_def r_def [symmetric])
  qed
qed

lemma extract_legacy_blob_eq:
  "extract_legacy_blob blob result = Inr (fst (extract_legacy_blob_try blob result))"
  by (simp add: extract_legacy_blob_def split: prod.splits)

lemma try_parse_legacy_string_eq:
  "try_parse_legacy_string jl blob_str result
     = Inr (fst (try_parse_legacy_string_try jl blob_str result))"
  by (simp add: try_parse_legacy_string_def split: prod.splits)

lemma called_Inr [simp]: "called result (Inr r) = (r, None)"
  by (simp add: called_def)

lemma try_parse_numeric:
  assumes "k = ''rating'' \<or> k = ''reviews_count''"
    and "\<forall>v. map_of result k = Some v \<longrightarrow> truthy v"
  shows "\<forall>v. map_of (fst (try_parse_legacy_string_try jl blob_str result)) k = Some v
           \<longrightarrow> truthy v"
  using assms legacy_blob_numeric [OF assms]
  by (simp add: try_parse_legacy_string_try_def Let_def extract_legacy_blob_eq split: sum.splits)

lemma schema_a_numeric:
  "k = ''rating'' \<or> k = ''reviews_count'' \<Longrightarrow> map_of (schema_a x) k = None"
  by (auto simp: schema_a_def Let_def dict_set_lookup)

lemma schema_b_numeric:
  assumes "k = ''rating'' \<or> k = ''reviews_count''"
    and "\<forall>v. map_of result k = Some v \<longrightarrow> truthy v"
  shows "\<forall>v. map_of (fst (schema_b jl x result)) k = Some v \<longrightarrow> truthy v"
  using assms legacy_blob_numeric [OF assms] try_parse_numeric [OF assms]
  by (simp add: schema_b_def Let_def extract_legacy_blob_eq try_parse_legacy_string_eq
      split: pyval.splits)

lemma parser_numeric:
  assumes "extract_from_app_init_state jl html = Inr s"
    and k: "k = ''rating'' \<or> k = ''reviews_count''"
    and "map_of s k = Some v"
  shows "truthy v"
proof -
  have s: "s = fst (extract_from_app_init_state_try jl html)"
    using assms(1) by (simp add: app_init_state_returns)
  have "\<forall>v. map_of (fst (extract_from_app_init_state_try jl html)) k = Some v \<longrightarrow> truthy v"
    using schema_b_numeric [OF k, of "schema_a x" for x] schema_a_numeric [OF k]
    by (simp add: extract_from_app_init_state_try_def Let_def split: option.splits sum.splits)
  then show ?thesis
    using assms(3) s by blast
qed

lemma resolved_numeric:
  assumes "extract_from_app_init_state jl html = Inr s"
  shows "rating (resolve_fields r s) \<noteq> PNone \<Longrightarrow> truthy (rating (resolve_fields r s))"
    and "reviews_count (resolve_fields r s) \<noteq> PNone
           \<Longrightarrow> truthy (reviews_count (resolve_fields r s))"
  using parser_numeric [OF assms, of "''rating''"] parser_numeric [OF assms, of "''reviews_count''"]
  by (auto simp: resolve_fields_def fallback_def dict_get_def split: option.splits if_splits)

lemma build_entries_truthy:
  assumes "rating f \<noteq> PNone \<longrightarrow> truthy (rating f)"
    and "reviews_count f \<noteq> PNone \<longrightarrow> truthy (reviews_count f)"
    and "(k, v) \<in> set (build_place_details f)"
  shows "truthy v"
  using assms by (auto simp: build_place_details_def entry_def split: if_splits)

lemma build_empty_iff:
  "build_place_details f = [] \<longleftrightarrow>
     \<not> truthy (name f) \<and> \<not> truthy (place_id f) \<and> \<not> truthy (coordinates f)
     \<and> \<not> truthy (address f) \<and> rating f = PNone \<and> reviews_count f = PNone
     \<and> \<not> truthy (categories f) \<and> \<not> truthy (website f) \<and> \<not> truthy (phone f)"
  by (auto simp: build_place_details_def entry_def)

text \<open>
  C1. For every rendered field set and every structured dictionary, \<open>place_id\<close> and
  \<open>coordinates\<close> of the merged record are the structured values, whatever the rendered
  set holds (it has no such fields); every other field is the rendered value when that is
  truthy, and the structured value only when the rendered value is absent, empty or
  otherwise falsy. The last conjuncts say the same of the record that is built.
\<close>

theorem field_resolution_precedence:
  "place_id (resolve_fields r s) = dict_get s ''place_id''
   \<and> coordinates (resolve_fields r s) = dict_get s ''coordinates''
   \<and> name (resolve_fields r s)
       = (if truthy (str_value (r_name r)) then str_value (r_name r) else dict_get s ''name'')
   \<and> rating (resolve_fields r s)
       = (if truthy (float_value (r_rating r)) then float_value (r_rating r)
          else dict_get s ''rating'')
   \<and> reviews_count (resolve_fields r s)
       = (if truthy (int_value (r_reviews_count r)) then int_value (r_reviews_count r)
          else dict_get s ''reviews_count'')
   \<and> address (resolve_fields r s)
       = (if truthy (str_value (r_address r)) then str_value (r_address r)
          else dict_get s ''address'')
   \<and> website (resolve_fields r s)
       = (if truthy (str_value (r_website r)) then str_value (r_website r)
          else dict_get s ''website'')
   \<and> categories (resolve_fields r s)
       = (if truthy (strs_value (r_categories r)) then strs_value (r_categories r)
          else dict_get s ''categories'')
   \<and> map_of (build_place_details (resolve_fields r s)) ''place_id''
       = (if truthy (dict_get s ''place_id'') then Some (dict_get s ''place_id'') else None)
   \<and> map_of (build_place_details (resolve_fields r s)) ''coordinates''
       = (if truthy (dict_get s ''coordinates'') then Some (dict_get s ''coordinates'') else None)
   \<and> (truthy (str_value (r_name r)) \<longrightarrow>
        map_of (build_place_details (resolve_fields r s)) ''name'' = Some (str_value (r_name r)))
   \<and> (truthy (float_value (r_rating r)) \<longrightarrow>
        map_of (build_place_details (resolve_fields r s)) ''rating''
          = Some (float_value (r_rating r)))
   \<and> (truthy (int_value (r_reviews_count r)) \<longrightarrow>
        map_of (build_place_details (resolve_fields r s)) ''reviews_count''
          = Some (int_value (r_reviews_count r)))
   \<and> (truthy (str_value (r_address r)) \<longrightarrow>
        map_of (build_place_details (resolve_fields r s)) ''address''
          = Some (str_value (r_address r)))
   \<and> (truthy (str_value (r_website r)) \<longrightarrow>
        map_of (build_place_details (resolve_fields r s)) ''website''
          = Some (str_value (r_website r)))
   \<and> (truthy (strs_value (r_categories r)) \<longrightarrow>
        map_of (build_place_details (resolve_fields r s)) ''categories''
          = Some (strs_value (r_categories r)))"
  by (auto simp: build_lookup resolve_fields_def fallback_def float_value_def int_value_def
      split: option.splits)

theorem field_resolution_precedence_witness:
  "place_id (resolve_fields example_rendered example_structured) = PStr ''0x1''
   \<and> coordinates (resolve_fields example_rendered example_structured) = PNone
   \<and> name (resolve_fields example_rendered example_structured) = PStr ''Cafe''
   \<and> rating (resolve_fields example_rendered example_structured) = PFloat 4
   \<and> address (resolve_fields example_rendered example_structured) = PStr ''Main St''
   \<and> map_of (build_place_details (resolve_fields example_rendered example_structured)) ''name''
       = Some (PStr ''Cafe'')
   \<and> map_of (build_place_details (resolve_fields example_rendered example_structured))
         ''place_id'' = Some (PStr ''0x1'')"
  using field_resolution_precedence [of example_rendered example_structured]
  by (simp add: example_rendered_def example_structured_def str_value_def float_value_def
      int_value_def strs_value_def dict_get_def)

text \<open>
  C4. The structured-state parser never raises: for every markup and every behaviour
  of the decoder, \<open>_extract_from_app_init_state\<close>, \<open>_extract_legacy_blob\<close> and
  \<open>_try_parse_legacy_string\<close> return a dictionary. A missing anchor, a text that does not
  start with \<open>[\<close> or \<open>{\<close>, a decode failure and a root that is not a list give the empty
  dictionary; an exception inside the legacy blob leaves the fields set so far, and
  fields already in the dictionary are kept.
\<close>

theorem structured_parser_never_raises:
  "(\<exists>d. extract_from_app_init_state jl html = Inr d)
   \<and> (\<exists>d. extract_legacy_blob blob result = Inr d)
   \<and> (\<exists>d. try_parse_legacy_string jl blob_str result = Inr d)
   \<and> (re_search app_init_pattern html = None
        \<longrightarrow> extract_from_app_init_state jl html = Inr [])
   \<and> (\<forall>b e caps. re_search app_init_pattern html = Some (b, e, caps)
          \<and> \<not> starts_json (strip (group1 caps))
        \<longrightarrow> extract_from_app_init_state jl html = Inr [])
   \<and> (\<forall>b e caps err. re_search app_init_pattern html = Some (b, e, caps)
          \<and> jl (strip (group1 caps)) = Inl err
        \<longrightarrow> extract_from_app_init_state jl html = Inr [])
   \<and> (\<forall>b e caps v. re_search app_init_pattern html = Some (b, e, caps)
          \<and> jl (strip (group1 caps)) = Inr v \<and> \<not> is_list v
        \<longrightarrow> extract_from_app_init_state jl html = Inr [])
   \<and> (\<forall>r e. extract_legacy_blob_try blob result = (r, Some e)
        \<longrightarrow> extract_legacy_blob blob result = Inr r)
   \<and> (\<forall>k v. map_of result k = Some v
        \<longrightarrow> (\<exists>d. extract_legacy_blob blob result = Inr d \<and> map_of d k = Some v))"
proof -
  have 1: "\<exists>d. extract_from_app_init_state jl html = Inr d"
    by (simp add: app_init_state_returns)
  have 2: "\<exists>d. extract_legacy_blob blob result = Inr d"
    by (simp add: extract_legacy_blob_eq)
  have 3: "\<exists>d. try_parse_legacy_string jl blob_str result = Inr d"
    by (simp add: try_parse_legacy_string_eq)
  have 4: "re_search app_init_pattern html = None
        \<longrightarrow> extract_from_app_init_state jl html = Inr []"
    by (simp add: app_init_state_returns extract_from_app_init_state_try_def)
  have 5: "\<forall>b e caps. re_search app_init_pattern html = Some (b, e, caps)
          \<and> \<not> starts_json (strip (group1 caps))
        \<longrightarrow> extract_from_app_init_state jl html = Inr []"
    by (simp add: app_init_state_returns extract_from_app_init_state_try_def)
  have 6: "\<forall>b e caps err. re_search app_init_pattern html = Some (b, e, caps)
          \<and> jl (strip (group1 caps)) = Inl err
        \<longrightarrow> extract_from_app_init_state jl html = Inr []"
    by (simp add: app_init_state_returns extract_from_app_init_state_try_def Let_def)
  have 7: "\<forall>b e caps v. re_search app_init_pattern html = Some (b, e, caps)
          \<and> jl (strip (group1 caps)) = Inr v \<and> \<not> is_list v
        \<longrightarrow> extract_from_app_init_state jl html = Inr []"
    by (simp add: app_init_state_returns extract_from_app_init_state_try_def Let_def
        schema_a_def schema_b_def)
  have 8: "\<forall>r e. extract_legacy_blob_try blob result = (r, Some e)
        \<longrightarrow> extract_legacy_blob blob result = Inr r"
    by (simp add: extract_legacy_blob_def)
  have 9: "\<forall>k v. map_of result k = Some v
        \<longrightarrow> (\<exists>d. extract_legacy_blob blob result = Inr d \<and> map_of d k = Some v)"
    by (simp add: extract_legacy_blob_eq legacy_blob_lookup_kept)
  from 1 2 3 4 5 6 7 8 9 show ?thesis by blast
qed

theorem structured_parser_never_raises_witness:
  "extract_from_app_init_state (json_table []) blank_html = Inr []
   \<and> re_search app_init_pattern not_json_html = Some (0, 54, [''null''])
   \<and> extract_from_app_init_state (json_table []) not_json_html = Inr []
   \<and> re_search app_init_pattern bad_json_html = Some (0, 55, [''[1,''])
   \<and> json_table [] ''[1,'' = Inl JSONDecodeError
   \<and> extract_from_app_init_state (json_table []) bad_json_html = Inr []
   \<and> re_search app_init_pattern object_html = Some (0, 52, [''{}''])
   \<and> extract_from_app_init_state (json_table [(''{}'', PDict [])]) object_html = Inr []
   \<and> extract_legacy_blob_try mixed_blob [] = ([(''name'', PStr ''Cafe'')], Some TypeError)
   \<and> extract_legacy_blob mixed_blob [] = Inr [(''name'', PStr ''Cafe'')]"
proof -
  have a: "re_search app_init_pattern blank_html = None"
    by code_simp
  have b: "re_search app_init_pattern not_json_html = Some (0, 54, [''null''])"
    by code_simp
  have b': "\<not> starts_json (strip (group1 [''null'']))"
    by code_simp
  have c: "re_search app_init_pattern bad_json_html = Some (0, 55, [''[1,''])"
    by code_simp
  have c': "json_table [] (strip (group1 [''[1,''])) = Inl JSONDecodeError"
    by (simp add: json_table_def)
  have d: "re_search app_init_pattern object_html = Some (0, 52, [''{}''])"
    by code_simp
  have d': "json_table [(''{}'', PDict [])] (strip (group1 [''{}''])) = Inr (PDict [])"
    by code_simp
  have e: "extract_legacy_blob_try mixed_blob [] = ([(''name'', PStr ''Cafe'')], Some TypeError)"
    by code_simp
  have 1: "extract_from_app_init_state (json_table []) blank_html = Inr []"
    using structured_parser_never_raises [of "json_table []" blank_html "[]" "[]" "[]"] a
    by blast
  have 2: "extract_from_app_init_state (json_table []) not_json_html = Inr []"
    using structured_parser_never_raises [of "json_table []" not_json_html "[]" "[]" "[]"] b b'
    by blast
  have 3: "extract_from_app_init_state (json_table []) bad_json_html = Inr []"
    using structured_parser_never_raises [of "json_table []" bad_json_html "[]" "[]" "[]"] c c'
    by blast
  have 4: "extract_from_app_init_state (json_table [(''{}'', PDict [])]) object_html = Inr []"
    using structured_parser_never_raises
            [of "json_table [(''{}'', PDict [])]" object_html "[]" "[]" "[]"] d d'
    by (metis is_list.simps(7))
  have 5: "extract_legacy_blob mixed_blob [] = Inr [(''name'', PStr ''Cafe'')]"
    using structured_parser_never_raises [of "json_table []" blank_html mixed_blob "[]" "[]"] e
    by blast
  have c'': "json_table [] ''[1,'' = Inl JSONDecodeError"
    by (simp add: json_table_def)
  from 1 2 3 4 5 b c c'' d e show ?thesis
    by simp
qed

text \<open>
  C3. When every rendered extractor returns an empty value and the structured parser
  returns no non-empty value, \<open>extract_place_data\<close> returns \<open>None\<close>; a record that is
  returned is non-empty and every entry in it is non-empty; and the per-item loop appends
  nothing for a link whose page gives \<open>None\<close>.
\<close>

theorem no_record_without_fields:
  "(html \<noteq> [] \<and> extract_from_app_init_state jl html = Inr s
      \<and> \<not> truthy (str_value (extract_name html))
      \<and> \<not> truthy (float_value (extract_rating html))
      \<and> \<not> truthy (int_value (extract_reviews_count html))
      \<and> \<not> truthy (str_value (extract_address html))
      \<and> \<not> truthy (str_value (extract_website html))
      \<and> \<not> truthy (str_value (extract_phone html))
      \<and> \<not> truthy (strs_value (extract_categories html))
      \<and> (\<forall>(k, v) \<in> set s. \<not> truthy v)
     \<longrightarrow> extract_place_data jl (Some html) = Inr None)
   \<and> (extract_place_data jl (Some html) = Inr (Some d)
        \<longrightarrow> d \<noteq> [] \<and> (\<forall>(k, v) \<in> set d. truthy v))
   \<and> (content ob = Inr html \<and> extract_place_data jl (Some html) = Inr None
        \<longrightarrow> process_link jl link ob results = results)"
proof -
  have 1: "extract_place_data jl (Some html) = Inr None"
    if h: "html \<noteq> []" "extract_from_app_init_state jl html = Inr s"
      "\<not> truthy (str_value (extract_name html))"
      "\<not> truthy (float_value (extract_rating html))"
      "\<not> truthy (int_value (extract_reviews_count html))"
      "\<not> truthy (str_value (extract_address html))"
      "\<not> truthy (str_value (extract_website html))"
      "\<not> truthy (str_value (extract_phone html))"
      "\<not> truthy (strs_value (extract_categories html))"
      "\<forall>(k, v) \<in> set s. \<not> truthy v"
  proof -
    have falsy: "\<not> truthy (dict_get s k)" for k
      using h(10) by (auto simp: dict_get_def split: option.splits dest!: map_of_SomeD)
    have none: "dict_get s k = PNone" if "k = ''rating'' \<or> k = ''reviews_count''" for k
    proof (cases "map_of s k")
      case None
      then show ?thesis by (simp add: dict_get_def)
    next
      case (Some v)
      then have "truthy v" "(k, v) \<in> set s"
        using parser_numeric [OF h(2) that] by (auto dest: map_of_SomeD)
      then show ?thesis
        using h(10) by blast
    qed
    have "build_place_details (resolve_fields (rendered_fields html) s) = []"
      unfolding build_empty_iff
      using h(3-9) falsy none
      by (simp add: resolve_fields_def rendered_fields_def fallback_def)
    then show ?thesis
      using h(1,2) by (simp add: extract_place_data_def)
  qed
  have 2: "d \<noteq> [] \<and> (\<forall>(k, v) \<in> set d. truthy v)"
    if h: "extract_place_data jl (Some html) = Inr (Some d)"
  proof -
    obtain s where s: "extract_from_app_init_state jl html = Inr s"
      by (simp add: app_init_state_returns)
    have d: "d = build_place_details (resolve_fields (rendered_fields html) s)" "d \<noteq> []"
      using h s by (auto simp: extract_place_data_def Let_def split: if_splits)
    have "truthy v" if "(k, v) \<in> set d" for k v
      using that resolved_numeric [OF s, of "rendered_fields html"] build_entries_truthy
      unfolding d(1) by blast
    then show ?thesis
      using d(2) by blast
  qed
  have 3: "process_link jl link ob results = results"
    if "content ob = Inr html" "extract_place_data jl (Some html) = Inr None"
    using that by (simp add: process_link_def split: sum.splits)
  from 1 2 3 show ?thesis
    by blast
qed

theorem no_record_without_fields_witness:
  "extract_place_data (json_table []) (Some blank_html) = Inr None
   \<and> process_link (json_table []) ''https://www.google.com/maps/place/X'' blank_visit [] = []
   \<and> extract_place_data (json_table []) (Some named_html)
       = Inr (Some [(''name'', PStr ''Cafe'')])
   \<and> truthy (PStr ''Cafe'')"
proof -
  have a: "blank_html \<noteq> []" "extract_from_app_init_state (json_table []) blank_html = Inr []"
    "\<not> truthy (str_value (extract_name blank_html))"
    "\<not> truthy (float_value (extract_rating blank_html))"
    "\<not> truthy (int_value (extract_reviews_count blank_html))"
    "\<not> truthy (str_value (extract_address blank_html))"
    "\<not> truthy (str_value (extract_website blank_html))"
    "\<not> truthy (str_value (extract_phone blank_html))"
    "\<not> truthy (strs_value (extract_categories blank_html))"
    by code_simp+
  have b: "extract_place_data (json_table []) (Some named_html)
       = Inr (Some [(''name'', PStr ''Cafe'')])"
    by code_simp
  have c: "content blank_visit = Inr blank_html"
    by (simp add: blank_visit_def)
  note t = no_record_without_fields [where jl = "json_table []" and html = blank_html
      and s = "[]" and ob = blank_visit and results = "[]"
      and link = "''https://www.google.com/maps/place/X''"]
  have 1: "extract_place_data (json_table []) (Some blank_html) = Inr None"
    using t a by simp
  have 2: "process_link (json_table []) ''https://www.google.com/maps/place/X'' blank_visit [] = []"
    using t 1 c by blast
  have "\<forall>(k, v) \<in> set [(''name'', PStr ''Cafe'')]. truthy v"
    using no_record_without_fields [where jl = "json_table []" and html = named_html
      and d = "[(''name'', PStr ''Cafe'')]"] b by blast
  then have 3: "truthy (PStr ''Cafe'')"
    by simp
  from 1 2 3 b show ?thesis
    by blast
qed

text \<open>
  C10 (the code departs from the claim). The build step tests \<open>rating\<close> and
  \<open>reviews_count\<close> with \<open>is not None\<close>, so as to keep a zero, but the fallback step before
  it tests them with \<open>not\<close> and replaces a zero by the structured value. The page whose
  only readable field is a rating of zero gives no record, and a page with a rating and a
  review count of zero gives a record without the count.
\<close>

theorem zero_rating_page_yields_no_record:
  "rendered_fields zero_rating_html
     = \<lparr> r_name = None, r_rating = Some 0, r_reviews_count = None, r_address = None,
         r_website = None, r_phone = None, r_categories = None \<rparr>
   \<and> extract_from_app_init_state (json_table []) zero_rating_html = Inr []
   \<and> extract_place_data (json_table []) (Some zero_rating_html) = Inr None
   \<and> extract_reviews_count zero_reviews_html = Some 0
   \<and> extract_place_data (json_table []) (Some zero_reviews_html)
       = Inr (Some [(''rating'', PFloat 4.5)])"
  by code_simp

section \<open>Properties of the collection run\<close>

lemma update_links_distinct:
  "distinct links \<Longrightarrow> distinct (update_links links current)"
  by (auto simp: update_links_def)

lemma update_links_same:
  "\<not> list_ex (\<lambda>x. x \<notin> set links) current \<Longrightarrow> update_links links current = links"
  by (simp add: update_links_def list_ex_iff filter_empty_conv)

lemma scroll_step_running:
  assumes "scroll_step mp ob st = Running st1"
  shows "scroll_iteration st1 = Suc (scroll_iteration st)"
    and "scroll_attempts_no_new st1 < 15"
    and "\<not> cap_reached mp (place_links st1)"
    and "distinct (place_links st) \<Longrightarrow> distinct (place_links st1)"
    and "(scroll_attempts_no_new st1 = Suc (scroll_attempts_no_new st)
           \<and> place_links st1 = place_links st \<and> last_height st1 = last_height st
           \<and> stalled (place_links st) (last_height st) ob)
         \<or> scroll_attempts_no_new st1 = 0"
  using assms
  by (auto simp: scroll_step_def Let_def MAX_SCROLL_ATTEMPTS_WITHOUT_NEW_LINKS_def stalled_def
      update_links_same update_links_distinct split: sum.splits if_splits)

lemma scroll_step_break:
  assumes "scroll_step mp ob st = Break why st1"
  shows "scroll_iteration st1 = Suc (scroll_iteration st)"
    and "why = CapReached \<Longrightarrow> \<exists>m. mp = Some m
           \<and> int (length (update_links (place_links st) (projr (current_links_list ob)))) \<ge> m
           \<and> place_links st1
               = py_slice_to (update_links (place_links st) (projr (current_links_list ob))) m"
    and "why \<noteq> CapReached \<Longrightarrow> \<not> cap_reached mp (place_links st1)"
    and "distinct (place_links st) \<Longrightarrow> why \<noteq> CapReached \<Longrightarrow> distinct (place_links st1)"
    and "why = EndMarker \<Longrightarrow> marker_visible (last_height st1) ob"
    and "why = NoProgress \<Longrightarrow> stalled (place_links st1) (last_height st1) ob
           \<and> scroll_attempts_no_new st1 = Suc (scroll_attempts_no_new st)
           \<and> 15 \<le> scroll_attempts_no_new st1
           \<and> place_links st1 = place_links st \<and> last_height st1 = last_height st"
  using assms
  by (auto simp: scroll_step_def Let_def MAX_SCROLL_ATTEMPTS_WITHOUT_NEW_LINKS_def stalled_def
      marker_visible_def cap_reached_def update_links_same update_links_distinct
      split: sum.splits if_splits option.splits)

lemma scroll_loop_break:
  assumes "scroll_loop mp obs st = Break why st'"
  shows "\<exists>n. scroll_iteration st' = scroll_iteration st + Suc n \<and> n < length obs
    \<and> (why = CapReached \<longrightarrow> mp \<noteq> None)
    \<and> (why \<noteq> CapReached \<longrightarrow> \<not> cap_reached mp (place_links st'))
    \<and> (why = EndMarker \<longrightarrow> marker_visible (last_height st') (obs ! n))"
  using assms
proof (induction obs arbitrary: st)
  case Nil
  then show ?case by simp
next
  case (Cons ob obs)
  show ?case
  proof (cases "scroll_step mp ob st")
    case (Running st1)
    then have "scroll_loop mp obs st1 = Break why st'"
      using Cons.prems by simp
    from Cons.IH [OF this] obtain n where
      n: "scroll_iteration st' = scroll_iteration st1 + Suc n" "n < length obs"
         "why = CapReached \<longrightarrow> mp \<noteq> None"
         "why \<noteq> CapReached \<longrightarrow> \<not> cap_reached mp (place_links st')"
         "why = EndMarker \<longrightarrow> marker_visible (last_height st') (obs ! n)"
      by blast
    have "scroll_iteration st' = scroll_iteration st + Suc (Suc n)"
      using n(1) scroll_step_running(1) [OF Running] by simp
    then show ?thesis
      using n(2-5) by (intro exI [of _ "Suc n"]) simp
  next
    case (Break why1 st1)
    then have eq: "why1 = why" "st1 = st'"
      using Cons.prems by simp_all
    note b = scroll_step_break [OF Break [unfolded eq]]
    show ?thesis
      using b(1) b(2) b(3) b(5) by (intro exI [of _ 0]) auto
  next
    case (LoopRaised e)
    then show ?thesis
      using Cons.prems by simp
  qed
qed

lemma scroll_step_end_marker:
  assumes "scroll_step mp ob st = Break EndMarker st1"
  shows "last_height st1 = last_height st"
  using assms
  by (auto simp: scroll_step_def Let_def split: sum.splits if_splits)

lemma scroll_loop_end_marker:
  assumes "scroll_loop mp obs st = Break EndMarker st'"
  shows "\<exists>n. scroll_iteration st' = scroll_iteration st + Suc n \<and> n < length obs
    \<and> marker_visible (last_height st') (obs ! n)
    \<and> length (states_before mp obs st) = Suc n
    \<and> last_height (states_before mp obs st ! n) = last_height st'"
  using assms
proof (induction obs arbitrary: st)
  case Nil
  then show ?case by simp
next
  case (Cons ob obs)
  show ?case
  proof (cases "scroll_step mp ob st")
    case (Running st1)
    then have "scroll_loop mp obs st1 = Break EndMarker st'"
      using Cons.prems by simp
    from Cons.IH [OF this] obtain n where
      n: "scroll_iteration st' = scroll_iteration st1 + Suc n" "n < length obs"
         "marker_visible (last_height st') (obs ! n)"
         "length (states_before mp obs st1) = Suc n"
         "last_height (states_before mp obs st1 ! n) = last_height st'"
      by blast
    have "scroll_iteration st' = scroll_iteration st + Suc (Suc n)"
      using n(1) scroll_step_running(1) [OF Running] by simp
    then show ?thesis
      using n(2-5) Running by (intro exI [of _ "Suc n"]) simp
  next
    case (Break why1 st1)
    then have eq: "why1 = EndMarker" "st1 = st'"
      using Cons.prems by simp_all
    note b = scroll_step_break [OF Break [unfolded eq]]
    show ?thesis
      using b(1) b(5) scroll_step_end_marker [OF Break [unfolded eq]] Break
      by (intro exI [of _ 0]) simp
  next
    case (LoopRaised e)
    then show ?thesis
      using Cons.prems by simp
  qed
qed

lemma scroll_loop_stalled_passes:
  assumes "scroll_loop mp obs st = Break NoProgress st'"
    and "scroll_attempts_no_new st < 15"
  shows "\<exists>n. scroll_iteration st' = scroll_iteration st + Suc n \<and> n < length obs
    \<and> length (states_before mp obs st) = Suc n
    \<and> (Suc n + scroll_attempts_no_new st = 15 \<or> 16 \<le> Suc n)
    \<and> (\<forall>i \<le> n. n - i < 15 \<longrightarrow>
          stalled (place_links (states_before mp obs st ! i))
                  (last_height (states_before mp obs st ! i)) (obs ! i)
          \<and> place_links (states_before mp obs st ! i) = place_links st'
          \<and> last_height (states_before mp obs st ! i) = last_height st')
    \<and> (Suc n + scroll_attempts_no_new st = 15
         \<longrightarrow> place_links st' = place_links st \<and> last_height st' = last_height st)"
  using assms
proof (induction obs arbitrary: st)
  case Nil
  then show ?case by simp
next
  case (Cons ob obs)
  show ?case
  proof (cases "scroll_step mp ob st")
    case (Running st1)
    then have run: "scroll_loop mp obs st1 = Break NoProgress st'"
      using Cons.prems by simp
    note r = scroll_step_running [OF Running]
    define bs where "bs = states_before mp obs st1"
    have sb: "states_before mp (ob # obs) st = st # bs"
      using Running by (simp add: bs_def)
    from Cons.IH [OF run r(2)] obtain n where
      n: "scroll_iteration st' = scroll_iteration st1 + Suc n" "n < length obs"
         "length bs = Suc n"
         "Suc n + scroll_attempts_no_new st1 = 15 \<or> 16 \<le> Suc n"
         "\<forall>i \<le> n. n - i < 15 \<longrightarrow>
            stalled (place_links (bs ! i)) (last_height (bs ! i)) (obs ! i)
            \<and> place_links (bs ! i) = place_links st'
            \<and> last_height (bs ! i) = last_height st'"
         "Suc n + scroll_attempts_no_new st1 = 15
            \<longrightarrow> place_links st' = place_links st1 \<and> last_height st' = last_height st1"
      unfolding bs_def by blast
    have it: "scroll_iteration st' = scroll_iteration st + Suc (Suc n)"
      using n(1) r(1) by simp
    have cnt: "Suc (Suc n) + scroll_attempts_no_new st = 15 \<or> 16 \<le> Suc (Suc n)"
      using n(4) r(5) by auto
    have same: "place_links st' = place_links st \<and> last_height st' = last_height st"
      if "Suc (Suc n) + scroll_attempts_no_new st = 15"
      using that n(4) n(6) r(5) by auto
    have first: "stalled (place_links st) (last_height st) ob
        \<and> place_links st = place_links st' \<and> last_height st = last_height st'"
      if "n < 14"
    proof -
      have e: "Suc (Suc n) + scroll_attempts_no_new st = 15"
        using cnt that by simp
      then have "scroll_attempts_no_new st1 \<noteq> 0"
        using n(4) that by simp
      then have "stalled (place_links st) (last_height st) ob"
        using r(5) by auto
      then show ?thesis
        using same [OF e] by simp
    qed
    have win: "stalled (place_links ((st # bs) ! i)) (last_height ((st # bs) ! i))
                 ((ob # obs) ! i)
          \<and> place_links ((st # bs) ! i) = place_links st'
          \<and> last_height ((st # bs) ! i) = last_height st'"
      if "i \<le> Suc n" "Suc n - i < 15" for i
    proof (cases i)
      case 0
      then have "n < 14"
        using that by simp
      from first [OF this] show ?thesis
        unfolding 0 nth_Cons_0 by metis
    next
      case (Suc j)
      then have "j \<le> n" "n - j < 15"
        using that by simp_all
      then have "stalled (place_links (bs ! j)) (last_height (bs ! j)) (obs ! j)
          \<and> place_links (bs ! j) = place_links st' \<and> last_height (bs ! j) = last_height st'"
        using n(5) by blast
      then show ?thesis
        unfolding Suc nth_Cons_Suc .
    qed
    have a2: "Suc n < length (ob # obs)"
      using n(2) by simp
    have a3: "length (st # bs) = Suc (Suc n)"
      using n(3) by simp
    have a5: "\<forall>i \<le> Suc n. Suc n - i < 15 \<longrightarrow>
          stalled (place_links ((st # bs) ! i)) (last_height ((st # bs) ! i)) ((ob # obs) ! i)
          \<and> place_links ((st # bs) ! i) = place_links st'
          \<and> last_height ((st # bs) ! i) = last_height st'"
      using win by blast
    have a6: "Suc (Suc n) + scroll_attempts_no_new st = 15
         \<longrightarrow> place_links st' = place_links st \<and> last_height st' = last_height st"
      using same by blast
    show ?thesis
      unfolding sb using it a2 a3 cnt a5 a6 by blast
  next
    case (Break why1 st1)
    then have eq: "why1 = NoProgress" "st1 = st'"
      using Cons.prems by simp_all
    note b = scroll_step_break [OF Break [unfolded eq]]
    show ?thesis
      using b(1) b(6) Cons.prems(2) Break by (intro exI [of _ 0]) auto
  next
    case (LoopRaised e)
    then show ?thesis
      using Cons.prems by simp
  qed
qed

lemma scroll_loop_cap_size:
  assumes "scroll_loop (Some m) obs st = Break why st'"
    and "0 \<le> m" and "distinct (place_links st)"
  shows "distinct (place_links st') \<and> int (length (place_links st')) \<le> m
    \<and> (why = CapReached \<longrightarrow> int (length (place_links st')) = m)"
  using assms
proof (induction obs arbitrary: st)
  case Nil
  then show ?case by simp
next
  case (Cons ob obs)
  show ?case
  proof (cases "scroll_step (Some m) ob st")
    case (Running st1)
    then have "scroll_loop (Some m) obs st1 = Break why st'"
      using Cons.prems(1) by simp
    from Cons.IH [OF this Cons.prems(2) scroll_step_running(4) [OF Running Cons.prems(3)]]
    show ?thesis .
  next
    case (Break why1 st1)
    then have eq: "why1 = why" "st1 = st'"
      using Cons.prems by simp_all
    note b = scroll_step_break [OF Break [unfolded eq]]
    show ?thesis
    proof (cases "why = CapReached")
      case True
      then obtain links where
        l: "int (length links) \<ge> m" "place_links st' = py_slice_to links m"
           "links = update_links (place_links st) (projr (current_links_list ob))"
        using b(2) by auto
      have "distinct links"
        using l(3) Cons.prems(3) by (simp add: update_links_distinct)
      moreover have "length (take (nat m) links) = nat m"
        using l(1) Cons.prems(2) by simp
      ultimately show ?thesis
        using l(2) Cons.prems(2) by (simp add: py_slice_to_def)
    next
      case False
      then show ?thesis
        using b(3) b(4) Cons.prems(3) by (auto simp: cap_reached_def)
    qed
  next
    case (LoopRaised e)
    then show ?thesis
      using Cons.prems by simp
  qed
qed

lemma collect_links_bound:
  assumes "collect_links (Some m) ob = Links ls" and "1 \<le> m"
  shows "distinct ls \<and> int (length ls) \<le> m"
proof -
  have aw: "distinct ls \<and> int (length ls) \<le> m"
    if "after_wait (Some m) ob links = Links ls" "distinct links" "int (length links) \<le> m"
    for links
    using that scroll_loop_cap_size [of m "scrolls ob"] assms(2)
    by (auto simp: after_wait_def split: sum.splits if_splits loop_result.splits)
  show ?thesis
    using assms aw [of "[]"] aw [of "[page_url ob]"]
    by (auto simp: collect_links_def split: sum.splits if_splits)
qed

text \<open>
  C5. For every supplied bound (\<open>max_places\<close> of 1 or more) the set of links handed
  to the per-item loop has no more than \<open>max_places\<close> elements. In the scroll loop, the
  pass in which the running count reaches or exceeds the bound ends the loop with the set
  cut to exactly \<open>max_places\<close> links, and every other exit leaves fewer than that. On the
  single-result path (no feed) the set is the one page URL, which is within every such
  bound and is exactly the bound when the count reaches it.
\<close>

theorem link_set_within_bound:
  "(1 \<le> m \<and> collect_links (Some m) ob = Links ls \<longrightarrow> distinct ls \<and> int (length ls) \<le> m)
   \<and> (0 \<le> m \<and> distinct (place_links st) \<and> scroll_loop (Some m) obs st = Break why st'
        \<longrightarrow> distinct (place_links st')
            \<and> (why = CapReached \<longrightarrow> int (length (place_links st')) = m)
            \<and> (why \<noteq> CapReached \<longrightarrow> int (length (place_links st')) < m))
   \<and> (0 \<le> m \<and> scrolled p = Inr u \<and> current_links_list p = Inr current
        \<and> m \<le> int (length (update_links (place_links st) current))
        \<longrightarrow> scroll_loop (Some m) (p # obs) st
              = Break CapReached
                  (st\<lparr>scroll_iteration := Suc (scroll_iteration st),
                      place_links := take (nat m) (update_links (place_links st) current)\<rparr>)
            \<and> int (length (take (nat m) (update_links (place_links st) current))) = m)
   \<and> (1 \<le> m \<and> feed_wait ob = Inl TimeoutError \<and> contains ''/maps/place/'' (page_url ob)
        \<and> feed_count ob = Inr 0
        \<longrightarrow> collect_links (Some m) ob = Links [page_url ob])"
proof -
  have 1: "distinct ls \<and> int (length ls) \<le> m"
    if "1 \<le> m" "collect_links (Some m) ob = Links ls"
    using collect_links_bound that by blast
  have 2: "distinct (place_links st')
            \<and> (why = CapReached \<longrightarrow> int (length (place_links st')) = m)
            \<and> (why \<noteq> CapReached \<longrightarrow> int (length (place_links st')) < m)"
    if h: "0 \<le> m" "distinct (place_links st)" "scroll_loop (Some m) obs st = Break why st'"
  proof -
    have "why \<noteq> CapReached \<longrightarrow> int (length (place_links st')) < m"
      using scroll_loop_break [OF h(3)] by (auto simp: cap_reached_def)
    then show ?thesis
      using scroll_loop_cap_size [OF h(3) h(1) h(2)] by blast
  qed
  have 3: "scroll_loop (Some m) (p # obs) st
              = Break CapReached
                  (st\<lparr>scroll_iteration := Suc (scroll_iteration st),
                      place_links := take (nat m) (update_links (place_links st) current)\<rparr>)
            \<and> int (length (take (nat m) (update_links (place_links st) current))) = m"
    if "0 \<le> m" "scrolled p = Inr u" "current_links_list p = Inr current"
      "m \<le> int (length (update_links (place_links st) current))"
    using that by (simp add: scroll_step_def cap_reached_def py_slice_to_def)
  have 4: "collect_links (Some m) ob = Links [page_url ob]"
    if "1 \<le> m" "feed_wait ob = Inl TimeoutError" "contains ''/maps/place/'' (page_url ob)"
      "feed_count ob = Inr 0"
    using that by (simp add: collect_links_def after_wait_def)
  from 1 2 3 4 show ?thesis
    by blast
qed

theorem link_set_within_bound_witness:
  "collect_links (Some 2) three_links_obs
     = Links [''https://www.google.com/maps/place/A'', ''https://www.google.com/maps/place/B'']
   \<and> int (length [''https://www.google.com/maps/place/A'',
                    ''https://www.google.com/maps/place/B'']) \<le> 2
   \<and> scroll_loop (Some 2) [three_links_pass] start_state = Break CapReached two_links_state
   \<and> int (length (place_links two_links_state)) = 2
   \<and> collect_links (Some 1) single_place_obs
       = Links [''https://www.google.com/maps/place/Cafe'']"
proof -
  have a: "collect_links (Some 2) three_links_obs
     = Links [''https://www.google.com/maps/place/A'', ''https://www.google.com/maps/place/B'']"
    by code_simp
  have b: "scroll_loop (Some 2) [three_links_pass] start_state = Break CapReached two_links_state"
    by code_simp
  have c: "distinct (place_links start_state)"
    by (simp add: start_state_def)
  have d: "feed_wait single_place_obs = Inl TimeoutError"
    "contains ''/maps/place/'' (page_url single_place_obs)"
    "feed_count single_place_obs = Inr 0"
    "page_url single_place_obs = ''https://www.google.com/maps/place/Cafe''"
    by code_simp+
  have 1: "int (length [''https://www.google.com/maps/place/A'',
                    ''https://www.google.com/maps/place/B'']) \<le> 2"
    using link_set_within_bound [where m = 2 and ob = three_links_obs
        and ls = "[''https://www.google.com/maps/place/A'',
                   ''https://www.google.com/maps/place/B'']"] a
    by simp
  have 2: "int (length (place_links two_links_state)) = 2"
    using link_set_within_bound [where m = 2 and st = start_state
        and obs = "[three_links_pass]" and why = CapReached and st' = two_links_state] b c
    by simp
  have 3: "collect_links (Some 1) single_place_obs
       = Links [''https://www.google.com/maps/place/Cafe'']"
    using link_set_within_bound [where m = 1 and ob = single_place_obs] d
    by simp
  from a b 1 2 3 show ?thesis
    by blast
qed

text \<open>
  C6, as stated, fails: with \<open>max_places = 0\<close> the loop ends by the link-count cap
  in its first pass, on a pass that found a new link, changed the scroll height and showed
  no end marker.
\<close>

theorem zero_bound_stops_first_pass:
  "scroll_loop (Some 0) [growing_pass] start_state
     = Break CapReached \<lparr> place_links = [], last_height = 500, scroll_attempts_no_new = 0,
                           scroll_iteration = 1 \<rparr>"
  by code_simp

text \<open>
  C6, amended. With \<open>max_places\<close> unset the loop never ends by the link-count cap.
  Whatever the bound, a break on the end marker happens in a pass that shows the marker
  with the scroll height unchanged, and a break for lack of progress (from a counter at
  zero) comes after at least 15 passes, each of the last 15 of which, judged against the
  state at its own start, found no new link, left the scroll height unchanged and showed
  no marker. With \<open>max_places = 0\<close> the first pass that reads the links ends the loop by
  the cap, with an empty link set.
\<close>

theorem scroll_loop_exits:
  "(scroll_loop None obs st = Break why st' \<longrightarrow> why = EndMarker \<or> why = NoProgress)
   \<and> (scroll_loop max_places obs st = Break EndMarker st' \<longrightarrow>
        (\<exists>n. scroll_iteration st' = scroll_iteration st + Suc n \<and> n < length obs
           \<and> marker_visible (last_height st') (obs ! n)
           \<and> length (states_before max_places obs st) = Suc n
           \<and> last_height (states_before max_places obs st ! n) = last_height st'))
   \<and> (scroll_loop max_places obs st = Break NoProgress st' \<and> scroll_attempts_no_new st = 0
        \<longrightarrow> (\<exists>n. scroll_iteration st' = scroll_iteration st + Suc n \<and> n < length obs
           \<and> 14 \<le> n
           \<and> length (states_before max_places obs st) = Suc n
           \<and> (\<forall>i. n - 14 \<le> i \<and> i \<le> n
                 \<longrightarrow> stalled (place_links (states_before max_places obs st ! i))
                             (last_height (states_before max_places obs st ! i)) (obs ! i)
                     \<and> place_links (states_before max_places obs st ! i) = place_links st'
                     \<and> last_height (states_before max_places obs st ! i) = last_height st'
                     \<and> stalled (place_links st') (last_height st') (obs ! i))))
   \<and> (scrolled ob = Inr u \<and> current_links_list ob = Inr current \<longrightarrow>
        (\<exists>st'. scroll_loop (Some 0) (ob # obs) st = Break CapReached st'
           \<and> place_links st' = []))"
proof -
  have 1: "why = EndMarker \<or> why = NoProgress" if "scroll_loop None obs st = Break why st'"
    using scroll_loop_break [OF that] by (cases why) auto
  have 2: "\<exists>n. scroll_iteration st' = scroll_iteration st + Suc n \<and> n < length obs
           \<and> marker_visible (last_height st') (obs ! n)
           \<and> length (states_before max_places obs st) = Suc n
           \<and> last_height (states_before max_places obs st ! n) = last_height st'"
    if "scroll_loop max_places obs st = Break EndMarker st'"
    using scroll_loop_end_marker [OF that] by blast
  have 3: "\<exists>n. scroll_iteration st' = scroll_iteration st + Suc n \<and> n < length obs
           \<and> 14 \<le> n
           \<and> length (states_before max_places obs st) = Suc n
           \<and> (\<forall>i. n - 14 \<le> i \<and> i \<le> n
                 \<longrightarrow> stalled (place_links (states_before max_places obs st ! i))
                             (last_height (states_before max_places obs st ! i)) (obs ! i)
                     \<and> place_links (states_before max_places obs st ! i) = place_links st'
                     \<and> last_height (states_before max_places obs st ! i) = last_height st'
                     \<and> stalled (place_links st') (last_height st') (obs ! i))"
    if h: "scroll_loop max_places obs st = Break NoProgress st'" "scroll_attempts_no_new st = 0"
  proof -
    define bs where "bs = states_before max_places obs st"
    from scroll_loop_stalled_passes [OF h(1)] h(2) obtain n where
      n: "scroll_iteration st' = scroll_iteration st + Suc n" "n < length obs"
         "length bs = Suc n"
         "Suc n + scroll_attempts_no_new st = 15 \<or> 16 \<le> Suc n"
         "\<forall>i \<le> n. n - i < 15 \<longrightarrow>
            stalled (place_links (bs ! i)) (last_height (bs ! i)) (obs ! i)
            \<and> place_links (bs ! i) = place_links st'
            \<and> last_height (bs ! i) = last_height st'"
      unfolding bs_def by auto
    have "14 \<le> n"
      using n(4) h(2) by auto
    moreover have "stalled (place_links (bs ! i)) (last_height (bs ! i)) (obs ! i)
            \<and> place_links (bs ! i) = place_links st'
            \<and> last_height (bs ! i) = last_height st'
            \<and> stalled (place_links st') (last_height st') (obs ! i)"
      if "n - 14 \<le> i" "i \<le> n" for i
    proof -
      have "n - i < 15"
        using that by auto
      then have w: "stalled (place_links (bs ! i)) (last_height (bs ! i)) (obs ! i)"
        "place_links (bs ! i) = place_links st'" "last_height (bs ! i) = last_height st'"
        using n(5) that(2) by blast+
      from w(1) have "stalled (place_links st') (last_height st') (obs ! i)"
        unfolding w(2) w(3) .
      with w show ?thesis
        by blast
    qed
    ultimately show ?thesis
      unfolding bs_def [symmetric] using n(1,2,3) by blast
  qed
  have 4: "\<exists>st'. scroll_loop (Some 0) (ob # obs) st = Break CapReached st'
           \<and> place_links st' = []"
    if "scrolled ob = Inr u" "current_links_list ob = Inr current"
    using that by (simp add: scroll_step_def cap_reached_def py_slice_to_def)
  from 1 2 3 4 show ?thesis
    by blast
qed

theorem scroll_loop_exits_witness:
  "scroll_loop None [end_pass] start_state = Break EndMarker end_state
   \<and> marker_visible 500 end_pass
   \<and> scroll_loop None (replicate 15 stalled_pass) start_state = Break NoProgress stalled_state
   \<and> stalled [] 500 stalled_pass
   \<and> scroll_loop None (replicate 15 growing_pass) start_state
       = Running \<lparr> place_links = [''https://www.google.com/maps/place/A''], last_height = 900,
                   scroll_attempts_no_new = 14, scroll_iteration = 15 \<rparr>
   \<and> scroll_loop (Some 0) [stalled_pass] start_state = Break CapReached end_state"
proof -
  have a: "scroll_loop None [end_pass] start_state = Break EndMarker end_state"
    by code_simp
  have b: "scroll_loop None (replicate 15 stalled_pass) start_state
             = Break NoProgress stalled_state"
    by code_simp
  have c: "scroll_loop (Some 0) [stalled_pass] start_state = Break CapReached end_state"
    by code_simp
  have d: "scroll_loop None (replicate 15 growing_pass) start_state
       = Running \<lparr> place_links = [''https://www.google.com/maps/place/A''], last_height = 900,
                   scroll_attempts_no_new = 14, scroll_iteration = 15 \<rparr>"
    by code_simp
  have z: "scroll_attempts_no_new start_state = 0"
    by (simp add: start_state_def)
  from scroll_loop_exits [where max_places = None and obs = "[end_pass]"
      and st = start_state and st' = end_state] a
  obtain n where "n < length [end_pass]" "marker_visible (last_height end_state) ([end_pass] ! n)"
    by blast
  then have 1: "marker_visible 500 end_pass"
    by (simp add: end_state_def)
  from scroll_loop_exits [where max_places = None and obs = "replicate 15 stalled_pass"
      and st = start_state and st' = stalled_state] b z
  obtain n where n: "n < length (replicate 15 stalled_pass)"
    "\<forall>i. n - 14 \<le> i \<and> i \<le> n
       \<longrightarrow> stalled (place_links stalled_state) (last_height stalled_state)
             (replicate 15 stalled_pass ! i)"
    by blast
  have "stalled (place_links stalled_state) (last_height stalled_state)
             (replicate 15 stalled_pass ! n)"
    using n(2) by simp
  then have 2: "stalled [] 500 stalled_pass"
    using n(1) by (simp add: stalled_state_def)
  from a b c d 1 2 show ?thesis
    by simp
qed

end
